theory Spec2Isabelle
  imports Main "HOL-Library.AList"
begin

section \<open>Envelope-encryption file vault: data model\<close>

text \<open>
  The development follows the three modules of the file vault:
  \<^verbatim>\<open>key_manager.py\<close> (class KeyManager), \<^verbatim>\<open>vault.py\<close> (class FileVault) and
  \<^verbatim>\<open>integrity_verifier.py\<close> (class IntegrityVerifier).

  Python \<^verbatim>\<open>bytes\<close> are lists of 8-bit characters; a Python \<^verbatim>\<open>str\<close> is modelled by its
  UTF-8 encoding, so \<^verbatim>\<open>s.encode("utf-8")\<close> and \<^verbatim>\<open>b.decode("utf-8")\<close> are the identity.
  Python integers are unbounded (\<^typ>\<open>int\<close>); lengths that the code passes to
  \<^verbatim>\<open>secrets.token_bytes\<close> are natural numbers.
\<close>

type_synonym bytes = string

text \<open>Values that \<^verbatim>\<open>json.load\<close> can return (floats do not occur in any store).\<close>

datatype json =
    JNull
  | JBool bool
  | JInt int
  | JStr string
  | JList "json list"
  | JDict "(string \<times> json) list"

text \<open>
  The four \<^verbatim>\<open>RuntimeError\<close>s raised by the key manager, told apart by their message:
  \<^item> \<open>NoActiveMasterKey\<close>: "No active master key" (generate_data_key),
  \<^item> \<open>KeyNotUnlocked\<close>: "Master key version ... not unlocked" (unwrap_data_key),
  \<^item> \<open>CannotUnlockCurrent\<close>: "Cannot unlock current master key" (rotate_master_key),
  \<^item> \<open>ActiveNotUnlocked\<close>: "Active master key not unlocked" (rewrap_data_key).
\<close>

datatype runtime_error =
    NoActiveMasterKey
  | KeyNotUnlocked
  | CannotUnlockCurrent
  | ActiveNotUnlocked

text \<open>
  Exceptions as values; \<open>InvalidTag\<close> is the one \<^verbatim>\<open>AESGCM.decrypt\<close> raises on data that
  does not authenticate.
\<close>

datatype error =
    RuntimeError runtime_error
  | FileNotFoundError
  | IsADirectoryError
  | FileExistsError
  | ValueError
  | KeyError string
  | TypeError
  | AttributeError
  | JSONDecodeError
  | InvalidTag

subsection \<open>The libraries the vault calls\<close>

text \<open>
  The cryptographic primitives (package \<^verbatim>\<open>cryptography\<close>, modules \<^verbatim>\<open>hmac\<close> and
  \<^verbatim>\<open>hashlib\<close>) and the JSON codec are not code of the vault. They are parameters of
  the model, collected in two records:
  \<^item> \<open>pbkdf2_hmac_sha256 password salt iterations length\<close> is
    \<^verbatim>\<open>PBKDF2HMAC(SHA256(), length, salt, iterations).derive(password)\<close>;
  \<^item> \<open>aesgcm_encrypt key nonce data\<close> is \<^verbatim>\<open>AESGCM(key).encrypt(nonce, data, None)\<close>
    (ciphertext followed by the tag);
  \<^item> \<open>aesgcm_decrypt key nonce data\<close> is \<^verbatim>\<open>AESGCM(key).decrypt(nonce, data, None)\<close>,
    \<open>None\<close> when it raises \<^verbatim>\<open>InvalidTag\<close>;
  \<^item> \<open>hmac_sha256 key msg\<close> is the digest of \<^verbatim>\<open>hmac.new(key, msg, sha256)\<close>;
  \<^item> \<open>json_dumps\<close> is \<^verbatim>\<open>json.dumps(obj).encode("utf-8")\<close> and \<open>json_loads\<close> is
    \<^verbatim>\<open>json.loads(data.decode("utf-8"))\<close>, \<open>None\<close> when either step raises.
  The two AES-GCM functions stand for the cipher itself, on keys and nonces of the sizes
  the class \<^verbatim>\<open>AESGCM\<close> accepts; the checks that the class makes before it runs the
  cipher are modelled below.
\<close>

record externals =
  pbkdf2_hmac_sha256 :: "bytes \<Rightarrow> bytes \<Rightarrow> nat \<Rightarrow> nat \<Rightarrow> bytes"
  aesgcm_encrypt :: "bytes \<Rightarrow> bytes \<Rightarrow> bytes \<Rightarrow> bytes"
  aesgcm_decrypt :: "bytes \<Rightarrow> bytes \<Rightarrow> bytes \<Rightarrow> bytes option"
  hmac_sha256 :: "bytes \<Rightarrow> bytes \<Rightarrow> bytes"

record codec =
  json_dumps :: "json \<Rightarrow> bytes"
  json_loads :: "bytes \<Rightarrow> json option"

text \<open>Sequencing of calls that can raise: the first exception ends the computation.\<close>

definition then_do :: "error + 'a \<Rightarrow> ('a \<Rightarrow> error + 'b) \<Rightarrow> error + 'b" where
  "then_do r f = (case r of Inl e \<Rightarrow> Inl e | Inr x \<Rightarrow> f x)"

subsection \<open>The class \<^verbatim>\<open>AESGCM\<close>\<close>

text \<open>
  The class checks its arguments before it runs the cipher:
  \<^item> \<^verbatim>\<open>AESGCM(key)\<close> raises \<^verbatim>\<open>ValueError\<close> unless the key has 128, 192 or 256 bits;
  \<^item> \<^verbatim>\<open>encrypt\<close> and \<^verbatim>\<open>decrypt\<close> raise \<^verbatim>\<open>ValueError\<close> unless the nonce has between 8 and
    128 bytes;
  \<^item> \<^verbatim>\<open>decrypt\<close> raises \<^verbatim>\<open>InvalidTag\<close> when the data does not authenticate.
  The object that the constructor returns is modelled by its key.
\<close>

definition key_size_ok :: "bytes \<Rightarrow> bool" where
  "key_size_ok key \<longleftrightarrow> length key = 16 \<or> length key = 24 \<or> length key = 32"

definition nonce_size_ok :: "bytes \<Rightarrow> bool" where
  "nonce_size_ok nonce \<longleftrightarrow> 8 \<le> length nonce \<and> length nonce \<le> 128"

definition AESGCM :: "bytes \<Rightarrow> error + bytes" where
  "AESGCM key = (if key_size_ok key then Inr key else Inl ValueError)"

definition AESGCM_encrypt :: "externals \<Rightarrow> bytes \<Rightarrow> bytes \<Rightarrow> bytes \<Rightarrow> error + bytes" where
  "AESGCM_encrypt X aesgcm nonce data =
     (if nonce_size_ok nonce then Inr (aesgcm_encrypt X aesgcm nonce data) else Inl ValueError)"

definition AESGCM_decrypt :: "externals \<Rightarrow> bytes \<Rightarrow> bytes \<Rightarrow> bytes \<Rightarrow> error + bytes" where
  "AESGCM_decrypt X aesgcm nonce data =
     (if nonce_size_ok nonce
      then (case aesgcm_decrypt X aesgcm nonce data of
              None \<Rightarrow> Inl InvalidTag
            | Some plaintext \<Rightarrow> Inr plaintext)
      else Inl ValueError)"

subsection \<open>Hexadecimal transport encoding\<close>

definition hexdigit :: "nat \<Rightarrow> char" where
  "hexdigit n = ''0123456789abcdef'' ! n"

text \<open>\<^verbatim>\<open>bytes.hex()\<close>: two lower-case digits per byte.\<close>

definition hex :: "bytes \<Rightarrow> string" where
  "hex b = concat (map (\<lambda>c. [hexdigit ((of_char c :: nat) div 16),
                              hexdigit ((of_char c :: nat) mod 16)]) b)"

definition hexval :: "char \<Rightarrow> nat option" where
  "hexval c =
     (let n = (of_char c :: nat) in
      if 48 \<le> n \<and> n \<le> 57 then Some (n - 48)
      else if 97 \<le> n \<and> n \<le> 102 then Some (n - 87)
      else if 65 \<le> n \<and> n \<le> 70 then Some (n - 55)
      else None)"

definition is_space :: "char \<Rightarrow> bool" where
  "is_space c = ((of_char c :: nat) \<in> {32, 9, 10, 11, 12, 13})"

text \<open>
  \<^verbatim>\<open>bytes.fromhex(s)\<close>: pairs of hexadecimal digits in either case, ASCII whitespace
  allowed between pairs; \<open>None\<close> when it raises \<^verbatim>\<open>ValueError\<close>.
\<close>

fun fromhex :: "string \<Rightarrow> bytes option" where
  "fromhex [] = Some []"
| "fromhex [c] = (if is_space c then Some [] else None)"
| "fromhex (c # d # cs) =
     (if is_space c then fromhex (d # cs)
      else case (hexval c, hexval d) of
             (Some a, Some b) \<Rightarrow> map_option ((#) (char_of (16 * a + b))) (fromhex cs)
           | _ \<Rightarrow> None)"

subsection \<open>Records of \<^verbatim>\<open>key_manager.py\<close>\<close>

record MasterKeyMetadata =
  version :: int
  created_at :: string
  key_id :: string
  algorithm :: string
  is_active :: bool

record WrappedDataKey =
  wrapped_key :: bytes
  iv :: bytes
  master_key_version :: int
  wdk_created_at :: string

text \<open>
  One element of the \<^verbatim>\<open>"versions"\<close> list of \<^verbatim>\<open>key_metadata.json\<close>: the fields of
  \<^verbatim>\<open>asdict(key_meta)\<close>, the salt in hexadecimal and, once \<^verbatim>\<open>unlock\<close> has stored it,
  the verification token.
\<close>

record version_data = MasterKeyMetadata +
  salt :: string
  verification_token :: "string option"

text \<open>
  The dictionary of \<^verbatim>\<open>key_metadata.json\<close>. A key that is absent from the dictionary is
  \<open>None\<close>; \<^verbatim>\<open>_load_metadata\<close> returns the empty dictionary when the file does not exist.
\<close>

record metadata =
  versions :: "version_data list option"
  active_version :: "int option"

subsection \<open>The world outside the process\<close>

text \<open>
  A path of the file system holds a regular file or a directory. The file system is an
  association list, so that \<^verbatim>\<open>os.listdir\<close> has an order to return.
\<close>

datatype node = File bytes | Dir

text \<open>
  What a JSON store on disk can be: not there, there but rejected by \<^verbatim>\<open>json.load\<close>,
  or there with the value \<^verbatim>\<open>json.load\<close> returns.
\<close>

datatype json_file = NoFile | Unparseable | Content json

text \<open>
  Everything the three classes share through the operating system:
  \<^item> \<open>files\<close>: the plaintext files, the vault files and the directories;
  \<^item> \<open>key_store\<close>: \<^verbatim>\<open>key_metadata.json\<close> in the key directory (\<open>None\<close>: no such file);
  \<^item> \<open>hmac_store\<close>: the sidecar \<^verbatim>\<open>integrity.json\<close> in the vault directory;
  \<^item> \<open>manifest_store\<close>: \<^verbatim>\<open>manifest.json\<close> in the vault directory;
  \<^item> \<open>entropy\<close>, \<open>drawn\<close>: the operating system's random bytes and how many of them
    \<^verbatim>\<open>secrets\<close> has handed out;
  \<^item> \<open>clock\<close>, \<open>ticks\<close>: the successive readings of
    \<^verbatim>\<open>datetime.now(timezone.utc).isoformat()\<close>.
  The JSON stores are kept apart from \<open>files\<close>: they are written and read only through
  the \<^verbatim>\<open>_load_*\<close>/\<^verbatim>\<open>_save_*\<close> methods, and no data file carries one of their names.
\<close>

record world =
  files :: "(string \<times> node) list"
  key_store :: "metadata option"
  hmac_store :: json_file
  manifest_store :: json_file
  entropy :: "nat \<Rightarrow> char"
  drawn :: nat
  clock :: "nat \<Rightarrow> string"
  ticks :: nat

text \<open>\<^verbatim>\<open>secrets.token_bytes(n)\<close>\<close>

definition token_bytes :: "nat \<Rightarrow> world \<Rightarrow> bytes \<times> world" where
  "token_bytes n w = (map (entropy w) [drawn w ..< drawn w + n], w\<lparr>drawn := drawn w + n\<rparr>)"

text \<open>\<^verbatim>\<open>secrets.token_hex(n)\<close>\<close>

definition token_hex :: "nat \<Rightarrow> world \<Rightarrow> string \<times> world" where
  "token_hex n w = (case token_bytes n w of (b, w') \<Rightarrow> (hex b, w'))"

text \<open>\<^verbatim>\<open>datetime.now(timezone.utc).isoformat()\<close>\<close>

definition now_isoformat :: "world \<Rightarrow> string \<times> world" where
  "now_isoformat w = (clock w (ticks w), w\<lparr>ticks := ticks w + 1\<rparr>)"

text \<open>
  Python's \<^verbatim>\<open>xs[s:]\<close>: a negative start counts from the end and is clipped at the
  front of the list; \<^verbatim>\<open>xs[-0:]\<close> is \<^verbatim>\<open>xs[0:]\<close>, the whole list.
\<close>

definition py_slice_from :: "int \<Rightarrow> 'a list \<Rightarrow> 'a list" where
  "py_slice_from s xs =
     (if s < 0 then drop (nat (int (length xs) + s)) xs else drop (nat s) xs)"

section \<open>KeyManager\<close>

text \<open>
  The object: its configuration and the in-memory cache \<^verbatim>\<open>_master_keys\<close>
  (version \<open>\<rightharpoonup>\<close> key bytes), which is never written to disk.
\<close>

record KeyManager =
  key_dir :: string
  kdf_iterations :: nat
  salt_length :: nat
  data_key_length :: nat
  iv_length :: nat
  max_versions :: int
  master_keys :: "int \<rightharpoonup> bytes"

text \<open>\<^verbatim>\<open>KeyManager(key_dir=d)\<close> with the constructor's defaults.\<close>

definition KeyManager_init :: "string \<Rightarrow> KeyManager" where
  "KeyManager_init d =
     \<lparr>key_dir = d, kdf_iterations = 480000, salt_length = 16, data_key_length = 32,
      iv_length = 12, max_versions = 5, master_keys = Map.empty\<rparr>"

definition load_metadata :: "world \<Rightarrow> metadata" where
  "load_metadata w =
     (case key_store w of
        Some m \<Rightarrow> m
      | None \<Rightarrow> \<lparr>versions = None, active_version = None\<rparr>)"

definition save_metadata :: "metadata \<Rightarrow> world \<Rightarrow> world" where
  "save_metadata m w = w\<lparr>key_store := Some m\<rparr>"

text \<open>\<^verbatim>\<open>metadata.get("versions", [])\<close>\<close>

definition get_versions :: "metadata \<Rightarrow> version_data list" where
  "get_versions m = (case versions m of None \<Rightarrow> [] | Some vs \<Rightarrow> vs)"

definition derive_key :: "externals \<Rightarrow> KeyManager \<Rightarrow> string \<Rightarrow> bytes \<Rightarrow> bytes" where
  "derive_key X km passphrase slt =
     pbkdf2_hmac_sha256 X passphrase slt (kdf_iterations km) (data_key_length km)"

text \<open>
  \<^verbatim>\<open>_prune_old_versions\<close> changes the dictionary it is given and saves it when it has
  removed something; the model returns the dictionary with the world.
\<close>

definition prune_old_versions :: "KeyManager \<Rightarrow> metadata \<Rightarrow> world \<Rightarrow> metadata \<times> world" where
  "prune_old_versions km m w =
     (let vs = get_versions m in
      if int (length vs) > max_versions km
      then (let m' = m\<lparr>versions := Some (py_slice_from (- max_versions km) vs)\<rparr>
            in (m', save_metadata m' w))
      else (m, w))"

text \<open>The loop \<^verbatim>\<open>for v in metadata["versions"]: v["is_active"] = False\<close>.\<close>

definition deactivate :: "version_data \<Rightarrow> version_data" where
  "deactivate v = v\<lparr>is_active := False\<rparr>"

definition initialize ::
  "externals \<Rightarrow> string \<Rightarrow> KeyManager \<times> world \<Rightarrow> MasterKeyMetadata \<times> KeyManager \<times> world" where
  "initialize X passphrase s =
     (case s of (km, w) \<Rightarrow>
      let m = load_metadata w;
          ver = int (length (get_versions m)) + 1;
          (slt, w1) = token_bytes (salt_length km) w;
          master_key = derive_key X km passphrase slt;
          (kid, w2) = token_hex 8 w1;
          (now, w3) = now_isoformat w2;
          key_meta = \<lparr>version = ver, created_at = now, key_id = kid,
                      algorithm = ''AES-256-GCM'', is_active = True\<rparr>;
          entry = \<lparr>version = ver, created_at = now, key_id = kid,
                   algorithm = ''AES-256-GCM'', is_active = True,
                   salt = hex slt, verification_token = None\<rparr>;
          m1 = \<lparr>versions = Some (map deactivate (get_versions m) @ [entry]),
                active_version = Some ver\<rparr>;
          w4 = save_metadata m1 w3;
          km1 = km\<lparr>master_keys := (master_keys km)(ver \<mapsto> master_key)\<rparr>;
          (m2, w5) = prune_old_versions km1 m1 w4
      in (key_meta, km1, w5))"

text \<open>
  \<^verbatim>\<open>_store_verification_token\<close>: the token is the nonce followed by the encryption of
  the fixed text; it goes into the first entry that carries the version number. When
  \<^verbatim>\<open>AESGCM\<close> refuses the key or the nonce, nothing has been saved.
\<close>

fun set_token :: "int \<Rightarrow> string \<Rightarrow> version_data list \<Rightarrow> version_data list" where
  "set_token ver tok [] = []"
| "set_token ver tok (v # vs) =
     (if version v = ver then v\<lparr>verification_token := Some tok\<rparr> # vs
      else v # set_token ver tok vs)"

definition store_verification_token ::
  "externals \<Rightarrow> KeyManager \<Rightarrow> int \<Rightarrow> bytes \<Rightarrow> metadata \<Rightarrow> world \<Rightarrow> error + world" where
  "store_verification_token X km ver master_key m w =
     (case token_bytes (iv_length km) w of (nonce, w1) \<Rightarrow>
      then_do (AESGCM master_key) (\<lambda>aesgcm.
      then_do (AESGCM_encrypt X aesgcm nonce ''vault_verification_v1'') (\<lambda>token.
      let combined = nonce @ token;
          m' = m\<lparr>versions := Some (set_token ver (hex combined) (get_versions m))\<rparr>
      in Inr (save_metadata m' w1))))"

text \<open>
  The \<^verbatim>\<open>try\<close> block of \<^verbatim>\<open>unlock\<close>: \<open>True\<close> when the stored token decrypts under the
  candidate key, \<open>False\<close> when anything in the block raises.
\<close>

definition token_accepts :: "externals \<Rightarrow> KeyManager \<Rightarrow> bytes \<Rightarrow> string \<Rightarrow> bool" where
  "token_accepts X km master_key tok =
     (case fromhex tok of
        None \<Rightarrow> False
      | Some token_data \<Rightarrow>
          \<not> isl (then_do (AESGCM master_key) (\<lambda>aesgcm.
                   AESGCM_decrypt X aesgcm (take (iv_length km) token_data)
                     (drop (iv_length km) token_data))))"

text \<open>
  \<^verbatim>\<open>unlock(passphrase, version)\<close>. Two exceptions escape, both \<^verbatim>\<open>ValueError\<close>: the one of
  \<^verbatim>\<open>bytes.fromhex\<close> on a salt that is not hexadecimal, and the one of
  \<^verbatim>\<open>_store_verification_token\<close>, which is called outside the \<^verbatim>\<open>try\<close> block.
\<close>

definition unlock ::
  "externals \<Rightarrow> string \<Rightarrow> int option \<Rightarrow> KeyManager \<times> world
     \<Rightarrow> error + (bool \<times> KeyManager \<times> world)" where
  "unlock X passphrase version_arg s =
     (case s of (km, w) \<Rightarrow>
      let m = load_metadata w in
      if get_versions m = [] then Inr (False, km, w)
      else
        let ver = (case version_arg of
                     Some v \<Rightarrow> v
                   | None \<Rightarrow> (case active_version m of Some a \<Rightarrow> a | None \<Rightarrow> 1))
        in case find (\<lambda>v. version v = ver) (get_versions m) of
             None \<Rightarrow> Inr (False, km, w)
           | Some vd \<Rightarrow>
               (case fromhex (salt vd) of
                  None \<Rightarrow> Inl ValueError
                | Some slt \<Rightarrow>
                    let master_key = derive_key X km passphrase slt in
                    (case verification_token vd of
                       Some tok \<Rightarrow>
                         if token_accepts X km master_key tok
                         then Inr (True, km\<lparr>master_keys := (master_keys km)(ver \<mapsto> master_key)\<rparr>, w)
                         else Inr (False, km, w)
                     | None \<Rightarrow>
                         let km1 = km\<lparr>master_keys := (master_keys km)(ver \<mapsto> master_key)\<rparr>
                         in then_do (store_verification_token X km1 ver master_key m w)
                              (\<lambda>w'. Inr (True, km1, w')))))"

text \<open>\<^verbatim>\<open>generate_data_key()\<close>; \<^verbatim>\<open>not active_version\<close> holds for \<^verbatim>\<open>None\<close> and for 0.\<close>

definition generate_data_key ::
  "externals \<Rightarrow> KeyManager \<Rightarrow> world \<Rightarrow> error + ((bytes \<times> WrappedDataKey) \<times> world)" where
  "generate_data_key X km w =
     (case active_version (load_metadata w) of
        None \<Rightarrow> Inl (RuntimeError NoActiveMasterKey)
      | Some av \<Rightarrow>
          if av = 0 then Inl (RuntimeError NoActiveMasterKey)
          else case master_keys km av of
                 None \<Rightarrow> Inl (RuntimeError NoActiveMasterKey)
               | Some master_key \<Rightarrow>
                   (case token_bytes (data_key_length km) w of (data_key, w1) \<Rightarrow>
                    case token_bytes (iv_length km) w1 of (nonce, w2) \<Rightarrow>
                    then_do (AESGCM master_key) (\<lambda>aesgcm.
                    then_do (AESGCM_encrypt X aesgcm nonce data_key) (\<lambda>wrapped.
                    case now_isoformat w2 of (now, w3) \<Rightarrow>
                    Inr ((data_key,
                          \<lparr>wrapped_key = wrapped, iv = nonce, master_key_version = av,
                           wdk_created_at = now\<rparr>), w3)))))"

definition unwrap_data_key :: "externals \<Rightarrow> KeyManager \<Rightarrow> WrappedDataKey \<Rightarrow> error + bytes" where
  "unwrap_data_key X km wrapped =
     (case master_keys km (master_key_version wrapped) of
        None \<Rightarrow> Inl (RuntimeError KeyNotUnlocked)
      | Some master_key \<Rightarrow>
          then_do (AESGCM master_key) (\<lambda>aesgcm.
          AESGCM_decrypt X aesgcm (iv wrapped) (wrapped_key wrapped)))"

text \<open>
  \<^verbatim>\<open>rotate_master_key(old_passphrase, new_passphrase)\<close>. \<^verbatim>\<open>old_version\<close> is
  \<^verbatim>\<open>metadata.get("active_version")\<close>, \<^verbatim>\<open>None\<close> on an empty store, and \<^verbatim>\<open>None\<close> is never a
  key of the cache.
\<close>

definition rotate_master_key ::
  "externals \<Rightarrow> string \<Rightarrow> string \<Rightarrow> KeyManager \<times> world
     \<Rightarrow> error + ((int option \<times> int) \<times> KeyManager \<times> world)" where
  "rotate_master_key X old_passphrase new_passphrase s =
     (case s of (km, w) \<Rightarrow>
      let old_version = active_version (load_metadata w);
          cached = (case old_version of None \<Rightarrow> False | Some v \<Rightarrow> master_keys km v \<noteq> None);
          unlocked = (if cached then Inr (True, km, w)
                      else unlock X old_passphrase old_version (km, w))
      in case unlocked of
           Inl e \<Rightarrow> Inl e
         | Inr (ok, s1) \<Rightarrow>
             if \<not> ok then Inl (RuntimeError CannotUnlockCurrent)
             else (case initialize X new_passphrase s1 of
                     (new_meta, s2) \<Rightarrow> Inr ((old_version, version new_meta), s2)))"

definition rewrap_data_key ::
  "externals \<Rightarrow> KeyManager \<Rightarrow> WrappedDataKey \<Rightarrow> world \<Rightarrow> error + (WrappedDataKey \<times> world)" where
  "rewrap_data_key X km wrapped w =
     (case unwrap_data_key X km wrapped of
        Inl e \<Rightarrow> Inl e
      | Inr data_key \<Rightarrow>
          (case active_version (load_metadata w) of
             None \<Rightarrow> Inl (RuntimeError ActiveNotUnlocked)
           | Some av \<Rightarrow>
               (case master_keys km av of
                  None \<Rightarrow> Inl (RuntimeError ActiveNotUnlocked)
                | Some master_key \<Rightarrow>
                    (case token_bytes (iv_length km) w of (nonce, w1) \<Rightarrow>
                     then_do (AESGCM master_key) (\<lambda>aesgcm.
                     then_do (AESGCM_encrypt X aesgcm nonce data_key) (\<lambda>new_wrapped.
                     case now_isoformat w1 of (now, w2) \<Rightarrow>
                     Inr (\<lparr>wrapped_key = new_wrapped, iv = nonce, master_key_version = av,
                           wdk_created_at = now\<rparr>, w2)))))))"

section \<open>Operating-system interface\<close>

subsection \<open>\<^verbatim>\<open>os.path\<close> on POSIX paths\<close>

definition basename :: "string \<Rightarrow> string" where
  "basename p = rev (takeWhile (\<lambda>c. c \<noteq> CHR ''/'') (rev p))"

definition dirname :: "string \<Rightarrow> string" where
  "dirname p =
     (let head = rev (dropWhile (\<lambda>c. c \<noteq> CHR ''/'') (rev p))
      in if head \<noteq> [] \<and> (\<exists>c \<in> set head. c \<noteq> CHR ''/'')
         then rev (dropWhile (\<lambda>c. c = CHR ''/'') (rev head))
         else head)"

definition join :: "string \<Rightarrow> string \<Rightarrow> string" where
  "join a b =
     (if b \<noteq> [] \<and> hd b = CHR ''/'' then b
      else if a = [] \<or> last a = CHR ''/'' then a @ b
      else a @ ''/'' @ b)"

text \<open>\<^verbatim>\<open>s.endswith(suffix)\<close>\<close>

definition endswith :: "string \<Rightarrow> string \<Rightarrow> bool" where
  "endswith s suffix = (length suffix \<le> length s \<and> drop (length s - length suffix) s = suffix)"

subsection \<open>Files and directories\<close>

definition isfile :: "world \<Rightarrow> string \<Rightarrow> bool" where
  "isfile w p = (case map_of (files w) p of Some (File _) \<Rightarrow> True | _ \<Rightarrow> False)"

definition isdir :: "world \<Rightarrow> string \<Rightarrow> bool" where
  "isdir w p = (map_of (files w) p = Some Dir)"

text \<open>\<^verbatim>\<open>open(p, "rb").read()\<close>\<close>

definition read_file :: "world \<Rightarrow> string \<Rightarrow> error + bytes" where
  "read_file w p =
     (case map_of (files w) p of
        None \<Rightarrow> Inl FileNotFoundError
      | Some Dir \<Rightarrow> Inl IsADirectoryError
      | Some (File b) \<Rightarrow> Inr b)"

text \<open>
  \<^verbatim>\<open>open(p, "wb")\<close> followed by the writes that make up \<open>b\<close>: the directory of \<open>p\<close> must
  exist (the empty directory name is the current directory) and \<open>p\<close> must not be a
  directory; an existing file is replaced where it stands in the listing.
\<close>

definition write_file :: "string \<Rightarrow> bytes \<Rightarrow> world \<Rightarrow> error + world" where
  "write_file p b w =
     (if isdir w p then Inl IsADirectoryError
      else if dirname p \<noteq> [] \<and> \<not> isdir w (dirname p) then Inl FileNotFoundError
      else Inr (w\<lparr>files := AList.update p (File b) (files w)\<rparr>))"

text \<open>
  The directories that \<^verbatim>\<open>os.makedirs(d, exist_ok=True)\<close> visits: every prefix of \<open>d\<close>
  that ends before a separator, then \<open>d\<close> itself.
\<close>

definition ancestors :: "string \<Rightarrow> string list" where
  "ancestors d = [take i d. i \<leftarrow> [1 ..< length d], d ! i = CHR ''/''] @ [d]"

fun make_each :: "string list \<Rightarrow> (string \<times> node) list \<Rightarrow> error + (string \<times> node) list" where
  "make_each [] fs = Inr fs"
| "make_each (p # ps) fs =
     (case map_of fs p of
        None \<Rightarrow> make_each ps (fs @ [(p, Dir)])
      | Some Dir \<Rightarrow> make_each ps fs
      | Some (File _) \<Rightarrow> Inl FileExistsError)"

definition makedirs :: "string \<Rightarrow> world \<Rightarrow> error + world" where
  "makedirs d w =
     (if d = [] then Inl FileNotFoundError
      else then_do (make_each (ancestors d) (files w)) (\<lambda>fs. Inr (w\<lparr>files := fs\<rparr>)))"

text \<open>
  \<^verbatim>\<open>os.listdir(d)\<close>, in the order of the file system: the names \<open>f\<close> for which the path
  \<^verbatim>\<open>os.path.join(d, f)\<close> exists.
\<close>

definition listdir :: "world \<Rightarrow> string \<Rightarrow> string list" where
  "listdir w d =
     [basename p. (p, n) \<leftarrow> files w, basename p \<noteq> [] \<and> join d (basename p) = p]"

text \<open>\<^verbatim>\<open>os.path.getsize(p)\<close>\<close>

definition getsize :: "world \<Rightarrow> string \<Rightarrow> error + int" where
  "getsize w p = then_do (read_file w p) (\<lambda>b. Inr (int (length b)))"

subsection \<open>Python values\<close>

text \<open>Truth value of a JSON value in a condition (\<^verbatim>\<open>if not stored\<close>).\<close>

fun truthy :: "json \<Rightarrow> bool" where
  "truthy JNull = False"
| "truthy (JBool b) = b"
| "truthy (JInt i) = (i \<noteq> 0)"
| "truthy (JStr s) = (s \<noteq> [])"
| "truthy (JList xs) = (xs \<noteq> [])"
| "truthy (JDict kvs) = (kvs \<noteq> [])"

text \<open>
  \<^verbatim>\<open>obj[key]\<close> with a string key: \<^verbatim>\<open>KeyError\<close> on a dictionary without the key,
  \<^verbatim>\<open>TypeError\<close> on anything that is not a dictionary.
\<close>

definition subscript :: "json \<Rightarrow> string \<Rightarrow> error + json" where
  "subscript obj key =
     (case obj of
        JDict kvs \<Rightarrow> (case map_of kvs key of None \<Rightarrow> Inl (KeyError key) | Some v \<Rightarrow> Inr v)
      | _ \<Rightarrow> Inl TypeError)"

text \<open>
  \<^verbatim>\<open>obj.get(key, default)\<close>: \<^verbatim>\<open>AttributeError\<close> on anything that is not a dictionary.
\<close>

definition dict_get :: "json \<Rightarrow> string \<Rightarrow> json \<Rightarrow> error + json" where
  "dict_get obj key dflt =
     (case obj of
        JDict kvs \<Rightarrow> (case map_of kvs key of None \<Rightarrow> Inr dflt | Some v \<Rightarrow> Inr v)
      | _ \<Rightarrow> Inl AttributeError)"

text \<open>
  \<^verbatim>\<open>obj[key] = value\<close>: a dictionary keeps the position of a key it has and appends a
  new one; \<^verbatim>\<open>TypeError\<close> on anything that is not a dictionary.
\<close>

definition setitem :: "json \<Rightarrow> string \<Rightarrow> json \<Rightarrow> error + json" where
  "setitem obj key v =
     (case obj of
        JDict kvs \<Rightarrow> Inr (JDict (AList.update key v kvs))
      | _ \<Rightarrow> Inl TypeError)"

text \<open>\<^verbatim>\<open>bytes.fromhex(x)\<close> on a JSON value: \<^verbatim>\<open>TypeError\<close> unless it is a string.\<close>

definition json_fromhex :: "json \<Rightarrow> error + bytes" where
  "json_fromhex x =
     (case x of
        JStr s \<Rightarrow> (case fromhex s of None \<Rightarrow> Inl ValueError | Some b \<Rightarrow> Inr b)
      | _ \<Rightarrow> Inl TypeError)"

section \<open>IntegrityVerifier\<close>

record IntegrityResult =
  result_vault_path :: string
  result_original_name :: json
  status :: string
  stored_hmac :: json
  computed_hmac :: string
  detail :: string
  checked_at :: string

record IntegrityVerifier =
  hmac_key :: bytes
  verifier_dir :: string

text \<open>
  The reading loop of \<^verbatim>\<open>_compute_hmac\<close>: \<^verbatim>\<open>f.read(n)\<close> until it returns no bytes.
\<close>

function read_chunks :: "nat \<Rightarrow> bytes \<Rightarrow> bytes list" where
  "read_chunks n data =
     (if n = 0 \<or> data = [] then [] else take n data # read_chunks n (drop n data))"
  by pat_completeness auto
termination
  by (relation "measure (\<lambda>(n, data). length data)") auto

text \<open>
  \<^verbatim>\<open>_compute_hmac(file_path)\<close>: \<^verbatim>\<open>h.update(chunk)\<close> appends the chunk to the message that
  \<^verbatim>\<open>h.hexdigest()\<close> authenticates.
\<close>

definition compute_hmac :: "externals \<Rightarrow> IntegrityVerifier \<Rightarrow> world \<Rightarrow> string \<Rightarrow> error + string" where
  "compute_hmac X v w file_path =
     then_do (read_file w file_path) (\<lambda>data.
       Inr (hex (hmac_sha256 X (hmac_key v) (foldl (@) [] (read_chunks 8192 data)))))"

definition load_store :: "world \<Rightarrow> error + json" where
  "load_store w =
     (case hmac_store w of
        NoFile \<Rightarrow> Inr (JDict [])
      | Unparseable \<Rightarrow> Inl JSONDecodeError
      | Content j \<Rightarrow> Inr j)"

definition save_store :: "IntegrityVerifier \<Rightarrow> json \<Rightarrow> world \<Rightarrow> error + world" where
  "save_store v store w =
     then_do (makedirs (verifier_dir v) w) (\<lambda>w1. Inr (w1\<lparr>hmac_store := Content store\<rparr>))"

definition sign_file ::
  "externals \<Rightarrow> IntegrityVerifier \<Rightarrow> string \<Rightarrow> world \<Rightarrow> error + (string \<times> world)" where
  "sign_file X v vault_path w =
     (if \<not> isfile w vault_path then Inl FileNotFoundError
      else
        then_do (compute_hmac X v w vault_path) (\<lambda>file_hmac.
        then_do (load_store w) (\<lambda>store.
        case now_isoformat w of (now, w1) \<Rightarrow>
        then_do (getsize w1 vault_path) (\<lambda>size.
        then_do (setitem store (basename vault_path)
                   (JDict [(''hmac'', JStr file_hmac), (''signed_at'', JStr now),
                           (''file_size'', JInt size)])) (\<lambda>store'.
        then_do (save_store v store' w1) (\<lambda>w2.
        Inr (file_hmac, w2)))))))"

text \<open>\<^verbatim>\<open>f.readline()\<close> on a file opened in binary mode, from its start.\<close>

definition readline :: "bytes \<Rightarrow> bytes" where
  "readline raw =
     (let line = takeWhile (\<lambda>c. c \<noteq> CHR 0x0A) raw
      in if length line < length raw then line @ [CHR 0x0A] else line)"

text \<open>
  The first \<^verbatim>\<open>try\<close> block of \<^verbatim>\<open>verify_file\<close> with its handler: the name in the header,
  or the base name of the path when anything in the block raises.
\<close>

definition header_name :: "codec \<Rightarrow> world \<Rightarrow> string \<Rightarrow> json" where
  "header_name J w vault_path =
     (case read_file w vault_path of
        Inl e \<Rightarrow> JStr (basename vault_path)
      | Inr raw \<Rightarrow>
          (case json_loads J (readline raw) of
             None \<Rightarrow> JStr (basename vault_path)
           | Some header \<Rightarrow>
               (case dict_get header ''original_name'' (JStr []) of
                  Inl e \<Rightarrow> JStr (basename vault_path)
                | Inr name \<Rightarrow> name)))"

text \<open>
  \<^verbatim>\<open>hmac.compare_digest(a, b)\<close> with \<open>b\<close> a string of hexadecimal digits: \<^verbatim>\<open>TypeError\<close>
  unless \<open>a\<close> is a string of ASCII characters.
\<close>

definition compare_digest :: "json \<Rightarrow> string \<Rightarrow> error + bool" where
  "compare_digest a b =
     (case a of
        JStr s \<Rightarrow> if \<forall>c \<in> set s. (of_char c :: nat) < 128 then Inr (s = b) else Inl TypeError
      | _ \<Rightarrow> Inl TypeError)"

definition verify_file ::
  "externals \<Rightarrow> codec \<Rightarrow> IntegrityVerifier \<Rightarrow> string \<Rightarrow> world
     \<Rightarrow> error + (IntegrityResult \<times> world)" where
  "verify_file X J v vault_path w =
     (case now_isoformat w of (now, w1) \<Rightarrow>
      let result = \<lparr>result_vault_path = vault_path,
                    result_original_name = header_name J w1 vault_path,
                    status = [], stored_hmac = JStr [], computed_hmac = [], detail = [],
                    checked_at = now\<rparr>
      in if \<not> isfile w1 vault_path
         then Inr (result\<lparr>status := ''missing'', detail := ''Vault file not found on disk''\<rparr>, w1)
         else
           then_do (load_store w1) (\<lambda>store.
           then_do (dict_get store (basename vault_path) JNull) (\<lambda>stored.
           if \<not> truthy stored
           then Inr (result\<lparr>status := ''missing'',
                            detail := ''No stored HMAC found: file not yet signed''\<rparr>, w1)
           else
             then_do (subscript stored ''hmac'') (\<lambda>sh.
             case compute_hmac X v w1 vault_path of
               Inl e \<Rightarrow> Inr (result\<lparr>stored_hmac := sh, status := ''error'',
                                     detail := ''Failed to compute HMAC''\<rparr>, w1)
             | Inr ch \<Rightarrow>
                 then_do (compare_digest sh ch) (\<lambda>same.
                 if same
                 then Inr (result\<lparr>stored_hmac := sh, computed_hmac := ch, status := ''verified'',
                            detail := ''File integrity confirmed: no tampering detected''\<rparr>, w1)
                 else Inr (result\<lparr>stored_hmac := sh, computed_hmac := ch, status := ''tampered'',
                            detail := ''INTEGRITY VIOLATION: File has been modified since signing''\<rparr>,
                           w1))))))"

text \<open>
  The loop of \<^verbatim>\<open>resign_all\<close> over the names \<^verbatim>\<open>os.listdir\<close> returned: an exception of
  \<^verbatim>\<open>sign_file\<close> is not caught and ends the loop.
\<close>

fun resign_each ::
  "externals \<Rightarrow> IntegrityVerifier \<Rightarrow> string list \<Rightarrow> nat \<Rightarrow> world \<Rightarrow> error + (nat \<times> world)" where
  "resign_each X v [] count w = Inr (count, w)"
| "resign_each X v (filename # rest) count w =
     (if endswith filename ''.vault''
      then then_do (sign_file X v (join (verifier_dir v) filename) w)
             (\<lambda>(h, w'). resign_each X v rest (count + 1) w')
      else resign_each X v rest count w)"

definition resign_all :: "externals \<Rightarrow> IntegrityVerifier \<Rightarrow> world \<Rightarrow> error + (nat \<times> world)" where
  "resign_all X v w =
     (if \<not> isdir w (verifier_dir v) then Inr (0, w)
      else resign_each X v (listdir w (verifier_dir v)) 0 w)"

section \<open>FileVault\<close>

record VaultEntry =
  entry_original_name :: string
  entry_original_size :: int
  entry_vault_path :: string
  entry_encrypted_at :: string
  entry_master_key_version :: int
  entry_hmac :: string

text \<open>
  The object: it refers to its KeyManager, whose cache the rotation changes, so the
  operations that change it return the FileVault with the world.
\<close>

record FileVault =
  key_manager :: KeyManager
  vault_dir :: string
  content_iv_length :: nat
  encrypted_extension :: string

text \<open>\<^verbatim>\<open>FileVault(key_manager, vault_dir=d)\<close> with the constructor's defaults.\<close>

definition FileVault_init :: "KeyManager \<Rightarrow> string \<Rightarrow> FileVault" where
  "FileVault_init km d =
     \<lparr>key_manager = km, vault_dir = d, content_iv_length = 12, encrypted_extension = ''.vault''\<rparr>"

text \<open>\<^verbatim>\<open>VAULT_FORMAT_VERSION\<close>\<close>

definition VAULT_FORMAT_VERSION :: int where
  "VAULT_FORMAT_VERSION = 1"

text \<open>\<^verbatim>\<open>asdict(entry)\<close>\<close>

definition entry_asdict :: "VaultEntry \<Rightarrow> json" where
  "entry_asdict e =
     JDict [(''original_name'', JStr (entry_original_name e)),
            (''original_size'', JInt (entry_original_size e)),
            (''vault_path'', JStr (entry_vault_path e)),
            (''encrypted_at'', JStr (entry_encrypted_at e)),
            (''master_key_version'', JInt (entry_master_key_version e)),
            (''hmac'', JStr (entry_hmac e))]"

definition load_manifest :: "world \<Rightarrow> error + json" where
  "load_manifest w =
     (case manifest_store w of
        NoFile \<Rightarrow> Inr (JDict [])
      | Unparseable \<Rightarrow> Inl JSONDecodeError
      | Content j \<Rightarrow> Inr j)"

text \<open>
  \<^verbatim>\<open>_update_manifest(entry)\<close>: a manifest that is no dictionary cannot take the key
  \<^verbatim>\<open>"entries"\<close>, and entries that are no list have no \<^verbatim>\<open>append\<close>.
\<close>

definition update_manifest :: "VaultEntry \<Rightarrow> world \<Rightarrow> error + world" where
  "update_manifest e w =
     then_do (load_manifest w) (\<lambda>manifest.
       case manifest of
         JDict kvs \<Rightarrow>
           then_do (case map_of kvs ''entries'' of
                      None \<Rightarrow> Inr []
                    | Some (JList es) \<Rightarrow> Inr es
                    | Some _ \<Rightarrow> Inl AttributeError) (\<lambda>es.
             case now_isoformat w of (now, w1) \<Rightarrow>
             let es' = es @ [entry_asdict e];
                 kvs1 = AList.update ''entries'' (JList es') kvs;
                 kvs2 = AList.update ''last_updated'' (JStr now) kvs1;
                 kvs3 = AList.update ''total_files'' (JInt (int (length es'))) kvs2
             in Inr (w1\<lparr>manifest_store := Content (JDict kvs3)\<rparr>))
       | _ \<Rightarrow> Inl TypeError)"

definition encrypt_file ::
  "externals \<Rightarrow> codec \<Rightarrow> FileVault \<Rightarrow> string \<Rightarrow> world \<Rightarrow> error + (VaultEntry \<times> world)" where
  "encrypt_file X J fv file_path w =
     (if \<not> isfile w file_path then Inl FileNotFoundError
      else
        then_do (makedirs (vault_dir fv) w) (\<lambda>w1.
        then_do (read_file w1 file_path) (\<lambda>plaintext.
        then_do (generate_data_key X (key_manager fv) w1) (\<lambda>((data_key, wrapped_data_key), w2).
        case token_bytes (content_iv_length fv) w2 of (nonce, w3) \<Rightarrow>
        then_do (AESGCM data_key) (\<lambda>aesgcm.
        then_do (AESGCM_encrypt X aesgcm nonce plaintext) (\<lambda>ciphertext.
        let original_name = basename file_path;
            vault_filename = original_name @ encrypted_extension fv;
            vault_path = join (vault_dir fv) vault_filename
        in case now_isoformat w3 of (now, w4) \<Rightarrow>
        let header = JDict [(''format_version'', JInt VAULT_FORMAT_VERSION),
                            (''original_name'', JStr original_name),
                            (''original_size'', JInt (int (length plaintext))),
                            (''encrypted_at'', JStr now),
                            (''wrapped_key'', JStr (hex (wrapped_key wrapped_data_key))),
                            (''wrapped_key_iv'', JStr (hex (iv wrapped_data_key))),
                            (''master_key_version'', JInt (master_key_version wrapped_data_key)),
                            (''content_iv'', JStr (hex nonce))];
            header_bytes = json_dumps J header
        in
        then_do (write_file vault_path (header_bytes @ [CHR 0x0A] @ ciphertext) w4) (\<lambda>w5.
        let entry = \<lparr>entry_original_name = original_name,
                     entry_original_size = int (length plaintext),
                     entry_vault_path = vault_path,
                     entry_encrypted_at = now,
                     entry_master_key_version = master_key_version wrapped_data_key,
                     entry_hmac = []\<rparr>
        in then_do (update_manifest entry w5) (\<lambda>w6. Inr (entry, w6)))))))))"

text \<open>\<^verbatim>\<open>raw.index(b"\n")\<close>\<close>

definition newline_index :: "bytes \<Rightarrow> error + nat" where
  "newline_index raw =
     (let line = takeWhile (\<lambda>c. c \<noteq> CHR 0x0A) raw
      in if length line < length raw then Inr (length line) else Inl ValueError)"

text \<open>
  The value of \<^verbatim>\<open>header["master_key_version"]\<close> as a key of the cache: the keys of the
  cache are integers, \<^verbatim>\<open>True\<close> and \<^verbatim>\<open>False\<close> equal 1 and 0, a string or \<^verbatim>\<open>None\<close> is never
  a key (so the version is "not unlocked"), and a list or dictionary cannot be hashed.
\<close>

definition as_version :: "json \<Rightarrow> error + int" where
  "as_version j =
     (case j of
        JInt i \<Rightarrow> Inr i
      | JBool b \<Rightarrow> Inr (if b then 1 else 0)
      | JNull \<Rightarrow> Inl (RuntimeError KeyNotUnlocked)
      | JStr _ \<Rightarrow> Inl (RuntimeError KeyNotUnlocked)
      | _ \<Rightarrow> Inl TypeError)"

text \<open>
  The parsing that \<^verbatim>\<open>decrypt_file\<close> and \<^verbatim>\<open>_rewrap_vault_file\<close> share: header, ciphertext
  and the arguments of \<^verbatim>\<open>WrappedDataKey(...)\<close> in the order the source evaluates them.
\<close>

definition split_vault_file :: "codec \<Rightarrow> bytes \<Rightarrow> error + (json \<times> bytes)" where
  "split_vault_file J raw =
     then_do (newline_index raw) (\<lambda>newline_pos.
       case json_loads J (take newline_pos raw) of
         None \<Rightarrow> Inl JSONDecodeError
       | Some header \<Rightarrow> Inr (header, drop (newline_pos + 1) raw))"

definition header_wrapped_key :: "json \<Rightarrow> error + (bytes \<times> bytes \<times> json)" where
  "header_wrapped_key header =
     then_do (then_do (subscript header ''wrapped_key'') json_fromhex) (\<lambda>wk.
     then_do (then_do (subscript header ''wrapped_key_iv'') json_fromhex) (\<lambda>wiv.
     then_do (subscript header ''master_key_version'') (\<lambda>mkv.
     Inr (wk, wiv, mkv))))"

definition decrypt_file ::
  "externals \<Rightarrow> codec \<Rightarrow> FileVault \<Rightarrow> string \<Rightarrow> string option \<Rightarrow> world
     \<Rightarrow> error + (string \<times> world)" where
  "decrypt_file X J fv vault_path output_dir w =
     (if \<not> isfile w vault_path then Inl FileNotFoundError
      else
        then_do (read_file w vault_path) (\<lambda>raw.
        then_do (split_vault_file J raw) (\<lambda>(header, ciphertext).
        then_do (header_wrapped_key header) (\<lambda>(wk, wiv, mkv).
        then_do (as_version mkv) (\<lambda>ver.
        then_do (unwrap_data_key X (key_manager fv)
                   \<lparr>wrapped_key = wk, iv = wiv, master_key_version = ver,
                    wdk_created_at = []\<rparr>) (\<lambda>data_key.
        then_do (then_do (subscript header ''content_iv'') json_fromhex) (\<lambda>content_iv.
        then_do (AESGCM data_key) (\<lambda>aesgcm.
        then_do (AESGCM_decrypt X aesgcm content_iv ciphertext) (\<lambda>plaintext.
        let out_dir = (case output_dir of None \<Rightarrow> dirname vault_path | Some d \<Rightarrow> d) in
        then_do (dict_get header ''original_name'' (JStr ''decrypted_file'')) (\<lambda>name.
        case name of
          JStr original_name \<Rightarrow>
            let output_path = join out_dir original_name in
            then_do (write_file output_path plaintext w) (\<lambda>w'. Inr (output_path, w'))
        | _ \<Rightarrow> Inl TypeError))))))))))"

definition rewrap_vault_file ::
  "externals \<Rightarrow> codec \<Rightarrow> FileVault \<Rightarrow> string \<Rightarrow> world \<Rightarrow> error + world" where
  "rewrap_vault_file X J fv vault_path w =
     then_do (read_file w vault_path) (\<lambda>raw.
     then_do (split_vault_file J raw) (\<lambda>(header, ciphertext).
     then_do (header_wrapped_key header) (\<lambda>(wk, wiv, mkv).
     then_do (as_version mkv) (\<lambda>ver.
     then_do (rewrap_data_key X (key_manager fv)
                \<lparr>wrapped_key = wk, iv = wiv, master_key_version = ver,
                 wdk_created_at = []\<rparr> w) (\<lambda>(new_wrapped, w1).
     then_do (setitem header ''wrapped_key'' (JStr (hex (wrapped_key new_wrapped)))) (\<lambda>h1.
     then_do (setitem h1 ''wrapped_key_iv'' (JStr (hex (iv new_wrapped)))) (\<lambda>h2.
     then_do (setitem h2 ''master_key_version'' (JInt (master_key_version new_wrapped))) (\<lambda>h3.
     write_file vault_path (json_dumps J h3 @ [CHR 0x0A] @ ciphertext) w1))))))))"

definition list_vault_files :: "FileVault \<Rightarrow> world \<Rightarrow> string list" where
  "list_vault_files fv w =
     (if \<not> isdir w (vault_dir fv) then []
      else [join (vault_dir fv) f. f \<leftarrow> listdir w (vault_dir fv),
            endswith f (encrypted_extension fv)])"

text \<open>
  The loop of \<^verbatim>\<open>rotate_keys\<close>: \<^verbatim>\<open>except Exception\<close> catches what \<^verbatim>\<open>_rewrap_vault_file\<close>
  raises, prints a warning and goes on with the next file. The warnings printed are
  returned with the count. \<^verbatim>\<open>_rewrap_vault_file\<close> writes the file as its last step, so a
  call that raises has changed nothing on disk.
\<close>

fun rewrap_each ::
  "externals \<Rightarrow> codec \<Rightarrow> FileVault \<Rightarrow> string list \<Rightarrow> nat \<Rightarrow> (string \<times> error) list \<Rightarrow> world
     \<Rightarrow> nat \<times> (string \<times> error) list \<times> world" where
  "rewrap_each X J fv [] count warnings w = (count, warnings, w)"
| "rewrap_each X J fv (vault_path # rest) count warnings w =
     (case rewrap_vault_file X J fv vault_path w of
        Inr w' \<Rightarrow> rewrap_each X J fv rest (count + 1) warnings w'
      | Inl e \<Rightarrow> rewrap_each X J fv rest count (warnings @ [(vault_path, e)]) w)"

definition rotate_keys ::
  "externals \<Rightarrow> codec \<Rightarrow> string \<Rightarrow> string \<Rightarrow> FileVault \<times> world
     \<Rightarrow> error + ((nat \<times> (string \<times> error) list) \<times> FileVault \<times> world)" where
  "rotate_keys X J old_passphrase new_passphrase s =
     (case s of (fv, w) \<Rightarrow>
      then_do (rotate_master_key X old_passphrase new_passphrase (key_manager fv, w))
        (\<lambda>((old_version, new_version), km', w1).
           let fv' = fv\<lparr>key_manager := km'\<rparr>;
               vault_files = list_vault_files fv' w1
           in case rewrap_each X J fv' vault_files 0 [] w1 of
                (count, warnings, w2) \<Rightarrow> Inr ((count, warnings), fv', w2)))"

section \<open>Reference codec\<close>

text \<open>
  A small instance of the JSON interface for the headers of vault files: a dictionary
  of strings and integers is written as one item per key, the key in hexadecimal, a
  colon, the value (a string in hexadecimal after \<open>s\<close>, an integer as its sign and that
  many strokes) and a semicolon. Other values are written as \<open>null\<close>. It is a stand-in
  on which the model can be run, not the JSON syntax.
\<close>

definition enc_val :: "json \<Rightarrow> string" where
  "enc_val j =
     (case j of
        JInt i \<Rightarrow> (if i < 0 then ''-'' else ''+'') @ replicate (nat \<bar>i\<bar>) CHR ''1''
      | JStr s \<Rightarrow> ''s'' @ hex s
      | _ \<Rightarrow> ''?'')"

definition enc_item :: "string \<times> json \<Rightarrow> string" where
  "enc_item kv = hex (fst kv) @ '':'' @ enc_val (snd kv) @ '';''"

definition ref_dumps :: "json \<Rightarrow> bytes" where
  "ref_dumps j = (case j of JDict kvs \<Rightarrow> concat (map enc_item kvs) | _ \<Rightarrow> ''null'')"

fun split_items :: "string \<Rightarrow> string \<Rightarrow> string list option" where
  "split_items acc [] = (if acc = [] then Some [] else None)"
| "split_items acc (c # cs) =
     (if c = CHR '';'' then map_option ((#) (rev acc)) (split_items [] cs)
      else split_items (c # acc) cs)"

definition dec_val :: "string \<Rightarrow> json option" where
  "dec_val s =
     (case s of
        [] \<Rightarrow> None
      | c # cs \<Rightarrow>
          if c = CHR ''s'' then map_option JStr (fromhex cs)
          else if c = CHR ''+'' \<and> cs = replicate (length cs) CHR ''1'' then Some (JInt (int (length cs)))
          else if c = CHR ''-'' \<and> cs = replicate (length cs) CHR ''1'' then Some (JInt (- int (length cs)))
          else None)"

definition dec_item :: "string \<Rightarrow> (string \<times> json) option" where
  "dec_item item =
     (let k = takeWhile (\<lambda>c. c \<noteq> CHR '':'') item
      in if length k < length item
         then (case (fromhex k, dec_val (drop (length k + 1) item)) of
                 (Some key, Some v) \<Rightarrow> Some (key, v)
               | _ \<Rightarrow> None)
         else None)"

definition ref_loads :: "bytes \<Rightarrow> json option" where
  "ref_loads s =
     (if s = ''null'' then Some JNull
      else case split_items [] s of
             None \<Rightarrow> None
           | Some items \<Rightarrow> map_option JDict (those (map dec_item items)))"

definition ref_codec :: codec where
  "ref_codec = \<lparr>json_dumps = ref_dumps, json_loads = ref_loads\<rparr>"

section \<open>Reference primitives\<close>

text \<open>
  A small instance of the cryptographic interface, on which the model can be run. It has
  the shape of the real primitives: the key derivation returns as many bytes as it is
  asked for, the authenticated encryption appends a 16-byte tag and its decryption
  rejects an input shorter than the tag or with a wrong tag, and the message
  authentication code is 32 bytes long. It has none of their strength.
\<close>

definition checksum :: "bytes \<Rightarrow> nat" where
  "checksum b = sum_list (map of_char b)"

definition ref_pbkdf2 :: "bytes \<Rightarrow> bytes \<Rightarrow> nat \<Rightarrow> nat \<Rightarrow> bytes" where
  "ref_pbkdf2 password slt iterations n =
     map (\<lambda>i. char_of (checksum (password @ slt) + iterations + i)) [0 ..< n]"

definition ref_tag :: "bytes \<Rightarrow> bytes \<Rightarrow> bytes \<Rightarrow> bytes" where
  "ref_tag key nonce body = replicate 16 (char_of (checksum (key @ nonce @ body) + length body))"

definition ref_mask :: "nat \<Rightarrow> bytes \<Rightarrow> bytes" where
  "ref_mask s data = map (\<lambda>c. char_of ((of_char c :: nat) + s)) data"

definition ref_unmask :: "nat \<Rightarrow> bytes \<Rightarrow> bytes" where
  "ref_unmask s data = map (\<lambda>c. char_of ((of_char c :: nat) + (256 - s mod 256))) data"

definition ref_encrypt :: "bytes \<Rightarrow> bytes \<Rightarrow> bytes \<Rightarrow> bytes" where
  "ref_encrypt key nonce data =
     (let body = ref_mask (checksum (key @ nonce)) data
      in body @ ref_tag key nonce body)"

definition ref_decrypt :: "bytes \<Rightarrow> bytes \<Rightarrow> bytes \<Rightarrow> bytes option" where
  "ref_decrypt key nonce data =
     (if length data < 16 then None
      else let body = take (length data - 16) data;
               tag = drop (length data - 16) data
           in if tag = ref_tag key nonce body
              then Some (ref_unmask (checksum (key @ nonce)) body)
              else None)"

definition ref_hmac :: "bytes \<Rightarrow> bytes \<Rightarrow> bytes" where
  "ref_hmac key msg = replicate 32 (char_of (checksum (key @ msg) + length msg))"

definition ref_externals :: externals where
  "ref_externals =
     \<lparr>pbkdf2_hmac_sha256 = ref_pbkdf2, aesgcm_encrypt = ref_encrypt,
      aesgcm_decrypt = ref_decrypt, hmac_sha256 = ref_hmac\<rparr>"

text \<open>An empty disk with a fixed tape of random bytes and a fixed clock.\<close>

definition world0 :: world where
  "world0 =
     \<lparr>files = [], key_store = None, hmac_store = NoFile, manifest_store = NoFile,
      entropy = (\<lambda>i. char_of (7 * i + 3)), drawn = 0,
      clock = (\<lambda>t. replicate (Suc t) CHR ''t''), ticks = 0\<rparr>"

section \<open>Vocabulary of the properties\<close>

text \<open>The version entries that \<^verbatim>\<open>key_metadata.json\<close> holds.\<close>

definition stored_versions :: "world \<Rightarrow> version_data list" where
  "stored_versions w = get_versions (load_metadata w)"

text \<open>
  Successive \<^verbatim>\<open>initialize\<close> calls of one KeyManager on one key store, one per
  passphrase; the result lists the version numbers they return.
\<close>

fun initialize_seq :: "externals \<Rightarrow> string list \<Rightarrow> KeyManager \<times> world \<Rightarrow> int list" where
  "initialize_seq X [] s = []"
| "initialize_seq X (p # ps) s =
     (case initialize X p s of (key_meta, s') \<Rightarrow> version key_meta # initialize_seq X ps s')"

text \<open>The entry that \<^verbatim>\<open>initialize\<close> appends when it starts from world \<open>w\<close>.\<close>

definition minted :: "KeyManager \<Rightarrow> world \<Rightarrow> version_data" where
  "minted km w =
     \<lparr>version = int (length (stored_versions w)) + 1,
      created_at = clock w (ticks w),
      key_id = hex (map (entropy w) [drawn w + salt_length km ..< drawn w + salt_length km + 8]),
      algorithm = ''AES-256-GCM'', is_active = True,
      salt = hex (map (entropy w) [drawn w ..< drawn w + salt_length km]),
      verification_token = None\<rparr>"

text \<open>What \<^verbatim>\<open>_prune_old_versions\<close> leaves of a list of entries.\<close>

definition keep_recent :: "int \<Rightarrow> 'a list \<Rightarrow> 'a list" where
  "keep_recent n vs = (if int (length vs) > n then py_slice_from (- n) vs else vs)"

text \<open>Functional correctness of the authenticated encryption: decryption undoes encryption.\<close>

definition aead_correct :: "externals \<Rightarrow> bool" where
  "aead_correct X \<longleftrightarrow>
     (\<forall>key nonce data. aesgcm_decrypt X key nonce (aesgcm_encrypt X key nonce data) = Some data)"

text \<open>The key derivation returns as many bytes as it is asked for.\<close>

definition kdf_length :: "externals \<Rightarrow> bool" where
  "kdf_length X \<longleftrightarrow> (\<forall>password slt iterations n.
      length (pbkdf2_hmac_sha256 X password slt iterations n) = n)"

text \<open>
  A KeyManager whose keys and nonces have sizes that \<^verbatim>\<open>AESGCM\<close> accepts, as they have with
  the constructor's defaults: \<^verbatim>\<open>data_key_length\<close>, which is also the length of the master
  keys, is 16, 24 or 32, and \<^verbatim>\<open>iv_length\<close> lies between 8 and 128.
\<close>

definition accepted_sizes :: "KeyManager \<Rightarrow> bool" where
  "accepted_sizes km \<longleftrightarrow>
     (data_key_length km = 16 \<or> data_key_length km = 24 \<or> data_key_length km = 32)
     \<and> 8 \<le> iv_length km \<and> iv_length km \<le> 128"

text \<open>
  What \<^verbatim>\<open>unlock\<close> may do to a stored entry: nothing, or add the verification token to an
  entry that has none.
\<close>

definition token_added_only :: "version_data \<Rightarrow> version_data \<Rightarrow> bool" where
  "token_added_only old new \<longleftrightarrow>
     new = old \<or> (verification_token old = None \<and> (\<exists>t. new = old\<lparr>verification_token := Some t\<rparr>))"

text \<open>What the claim allows to happen to a stored entry: nothing, or deactivation.\<close>

definition only_deactivated :: "version_data \<Rightarrow> version_data \<Rightarrow> bool" where
  "only_deactivated old new \<longleftrightarrow> new = old \<or> new = deactivate old"

text \<open>The running example: \<^verbatim>\<open>KeyManager(key_dir="vault_keys")\<close>, initialised with passphrase "A".\<close>

definition km0 :: KeyManager where
  "km0 = KeyManager_init ''vault_keys''"

definition bootstrapped :: "KeyManager \<times> world" where
  "bootstrapped = snd (initialize ref_externals ''A'' (km0, world0))"


text \<open>A wrapped data key whose bytes are too short to hold an authentication tag.\<close>

definition truncated_key :: WrappedDataKey where
  "truncated_key =
     \<lparr>wrapped_key = [], iv = ''123456789012'', master_key_version = 1, wdk_created_at = ''t''\<rparr>"

text \<open>
  What the model asks of the JSON codec: a dictionary with distinct keys whose values are
  strings and integers is read back as it was written, and the text written contains no
  line feed (\<^verbatim>\<open>json.dumps\<close> escapes it inside strings and, without \<^verbatim>\<open>indent\<close>, writes
  none between items).
\<close>

definition scalar :: "json \<Rightarrow> bool" where
  "scalar j = (case j of JInt _ \<Rightarrow> True | JStr _ \<Rightarrow> True | _ \<Rightarrow> False)"

definition flat_dict :: "json \<Rightarrow> bool" where
  "flat_dict j =
     (case j of JDict kvs \<Rightarrow> distinct (map fst kvs) \<and> list_all (\<lambda>kv. scalar (snd kv)) kvs
      | _ \<Rightarrow> False)"

definition codec_ok :: "codec \<Rightarrow> bool" where
  "codec_ok J \<longleftrightarrow>
     (\<forall>h. flat_dict h \<longrightarrow> json_loads J (json_dumps J h) = Some h)
     \<and> (\<forall>h. CHR 0x0A \<notin> set (json_dumps J h))"

text \<open>
  The vault directory of the running example: a regular vault file \<^verbatim>\<open>b.vault\<close> and,
  listed before it, a directory that carries the name \<^verbatim>\<open>a.vault\<close>.
\<close>

definition world_with_directory :: world where
  "world_with_directory =
     world0\<lparr>files := [(''vault_data'', Dir), (''vault_data/a.vault'', Dir),
                       (''vault_data/b.vault'', File ''header'')]\<rparr>"

definition verifier0 :: IntegrityVerifier where
  "verifier0 = \<lparr>hmac_key = ''hmac key'', verifier_dir = ''vault_data''\<rparr>"

text \<open>A sidecar store that \<^verbatim>\<open>json.load\<close> rejects, next to a vault file that exists.\<close>

definition world_unparseable_store :: world where
  "world_unparseable_store =
     world0\<lparr>files := [(''vault_data'', Dir), (''vault_data/b.vault'', File ''header'')],
            hmac_store := Unparseable\<rparr>"

text \<open>A sidecar store whose entry for the vault file is a string instead of a dictionary.\<close>

definition world_malformed_entry :: world where
  "world_malformed_entry =
     world0\<lparr>files := [(''vault_data'', Dir), (''vault_data/b.vault'', File ''header'')],
            hmac_store := Content (JDict [(''b.vault'', JStr ''garbage'')])\<rparr>"

text \<open>The header that \<^verbatim>\<open>encrypt_file\<close> builds.\<close>

definition vault_header ::
  "string \<Rightarrow> int \<Rightarrow> string \<Rightarrow> bytes \<Rightarrow> bytes \<Rightarrow> int \<Rightarrow> bytes \<Rightarrow> json" where
  "vault_header name n now wk wiv ver nonce =
     JDict [(''format_version'', JInt VAULT_FORMAT_VERSION),
            (''original_name'', JStr name),
            (''original_size'', JInt n),
            (''encrypted_at'', JStr now),
            (''wrapped_key'', JStr (hex wk)),
            (''wrapped_key_iv'', JStr (hex wiv)),
            (''master_key_version'', JInt ver),
            (''content_iv'', JStr (hex nonce))]"

text \<open>
  A header as \<^verbatim>\<open>decrypt_file\<close> and \<^verbatim>\<open>_rewrap_vault_file\<close> read it: a dictionary of
  strings and integers that names the wrapped data key, its nonce, the version of the
  master key that wrapped it, the nonce of the content and the name of the file.
\<close>

definition header_fields :: "json \<Rightarrow> string \<Rightarrow> bytes \<Rightarrow> bytes \<Rightarrow> int \<Rightarrow> bytes \<Rightarrow> bool" where
  "header_fields header name wk wiv ver nonce \<longleftrightarrow>
     flat_dict header
     \<and> subscript header ''original_name'' = Inr (JStr name)
     \<and> subscript header ''wrapped_key'' = Inr (JStr (hex wk))
     \<and> subscript header ''wrapped_key_iv'' = Inr (JStr (hex wiv))
     \<and> subscript header ''master_key_version'' = Inr (JInt ver)
     \<and> subscript header ''content_iv'' = Inr (JStr (hex nonce))"

text \<open>
  The scenario of the specification: the vault initialised with passphrase "A" and a file
  \<^verbatim>\<open>hello.txt\<close> that contains "hi".
\<close>

definition world_hello :: world where
  "world_hello = (snd bootstrapped)\<lparr>files := [(''hello.txt'', File ''hi'')]\<rparr>"

definition vault0 :: FileVault where
  "vault0 = FileVault_init (fst bootstrapped) ''vault_data''"

text \<open>
  The tampering of the demonstration script, on a file that is not empty:
  \<^verbatim>\<open>content[-1] = (content[-1] + 1) % 256\<close>.
\<close>

definition flip_last :: "bytes \<Rightarrow> bytes" where
  "flip_last content = content[length content - 1 := char_of ((of_char (last content) :: nat) + 1)]"

text \<open>
  The scenario of the specification continued: \<^verbatim>\<open>hello.txt\<close> is encrypted, the vault file
  is signed, and then its last byte is changed on disk.
\<close>

definition hello_encrypted :: world where
  "hello_encrypted = snd (projr (encrypt_file ref_externals ref_codec vault0 ''hello.txt'' world_hello))"

definition hello_signed :: world where
  "hello_signed =
     snd (projr (sign_file ref_externals verifier0 ''vault_data/hello.txt.vault'' hello_encrypted))"

definition hello_tampered :: world where
  "hello_tampered =
     projr (then_do (read_file hello_signed ''vault_data/hello.txt.vault'') (\<lambda>content.
              write_file ''vault_data/hello.txt.vault'' (flip_last content) hello_signed))"






section \<open>Properties\<close>

subsection \<open>Sequencing\<close>

lemma then_do_simps [simp]:
  "then_do (Inr x) f = f x"
  "then_do (Inl e) f = Inl e"
  by (simp_all add: then_do_def)

lemma then_do_eq_Inr:
  "then_do r f = Inr y \<longleftrightarrow> (\<exists>x. r = Inr x \<and> f x = Inr y)"
  by (cases r) simp_all

subsection \<open>The argument checks of \<^verbatim>\<open>AESGCM\<close>\<close>

lemma AESGCM_encrypt_sized:
  "key_size_ok key \<Longrightarrow> nonce_size_ok nonce
     \<Longrightarrow> then_do (AESGCM key) (\<lambda>aesgcm. then_do (AESGCM_encrypt X aesgcm nonce data) f) =
           f (aesgcm_encrypt X key nonce data)"
  by (simp add: AESGCM_def AESGCM_encrypt_def)

lemma AESGCM_encrypt_Inr:
  "then_do (AESGCM key) (\<lambda>aesgcm. then_do (AESGCM_encrypt X aesgcm nonce data) f) = Inr r
     \<longleftrightarrow> key_size_ok key \<and> nonce_size_ok nonce \<and> f (aesgcm_encrypt X key nonce data) = Inr r"
  by (simp add: AESGCM_def AESGCM_encrypt_def)


lemma AESGCM_decrypt_Inr:
  "then_do (AESGCM key) (\<lambda>aesgcm. AESGCM_decrypt X aesgcm nonce data) = Inr plaintext
     \<longleftrightarrow> key_size_ok key \<and> nonce_size_ok nonce \<and> aesgcm_decrypt X key nonce data = Some plaintext"
  by (auto simp: AESGCM_def AESGCM_decrypt_def split: option.splits)

lemma nonce_size_token_bytes:
  "nonce_size_ok (fst (token_bytes n w)) \<longleftrightarrow> 8 \<le> n \<and> n \<le> 128"
  by (simp add: nonce_size_ok_def token_bytes_def)

lemma key_size_token_bytes:
  "key_size_ok (fst (token_bytes n w)) \<longleftrightarrow> n = 16 \<or> n = 24 \<or> n = 32"
  by (simp add: key_size_ok_def token_bytes_def)

subsection \<open>Hexadecimal encoding\<close>

lemma hexdigits_table:
  "list_all (\<lambda>n. hexval (hexdigit n) = Some n \<and> \<not> is_space (hexdigit n)) [0 ..< 16]"
  by code_simp

lemma hexval_hexdigit: "n < 16 \<Longrightarrow> hexval (hexdigit n) = Some n"
  using hexdigits_table by (simp add: list_all_iff)

lemma not_space_hexdigit: "n < 16 \<Longrightarrow> \<not> is_space (hexdigit n)"
  using hexdigits_table by (simp add: list_all_iff)

lemma nibbles_less: "(of_char (c::char) :: nat) div 16 < 16" "(of_char (c::char) :: nat) mod 16 < 16"
proof -
  have "(of_char c :: nat) < 256" by simp
  then show "(of_char c :: nat) div 16 < 16" by linarith
  show "(of_char c :: nat) mod 16 < 16" by simp
qed

lemma fromhex_hex: "fromhex (hex b) = Some b"
proof (induction b)
  case Nil
  show ?case by (simp add: hex_def)
next
  case (Cons c b)
  define high where "high = (of_char c :: nat) div 16"
  define low where "low = (of_char c :: nat) mod 16"
  have high: "high < 16"
    by (simp add: high_def nibbles_less)
  have low: "low < 16"
    by (simp add: low_def)
  have byte: "char_of (16 * high + low) = c"
    by (simp add: high_def low_def)
  have step: "hex (c # b) = hexdigit high # hexdigit low # hex b"
    by (simp add: hex_def high_def low_def)
  show ?case
    unfolding step using Cons.IH
    by (simp add: hexval_hexdigit [OF high] hexval_hexdigit [OF low] not_space_hexdigit [OF high] byte)
qed

lemma hex_inject: "hex a = hex b \<Longrightarrow> a = b"
  by (metis fromhex_hex option.inject)

subsection \<open>KeyManager: \<^verbatim>\<open>initialize\<close>\<close>

lemma initialize_version:
  "version (fst (initialize X p (km, w))) = int (length (stored_versions w)) + 1"
  by (simp add: initialize_def stored_versions_def Let_def split: prod.splits)

lemma initialize_stored_versions:
  "stored_versions (snd (snd (initialize X p (km, w)))) =
     keep_recent (max_versions km) (map deactivate (stored_versions w) @ [minted km w])"
  by (simp add: initialize_def Let_def prune_old_versions_def keep_recent_def save_metadata_def
      get_versions_def load_metadata_def stored_versions_def
      token_bytes_def token_hex_def now_isoformat_def minted_def split: prod.splits)

lemma initialize_active_version:
  "active_version (load_metadata (snd (snd (initialize X p (km, w))))) =
     Some (int (length (stored_versions w)) + 1)"
  by (simp add: initialize_def Let_def prune_old_versions_def save_metadata_def
      get_versions_def load_metadata_def stored_versions_def
      token_bytes_def token_hex_def now_isoformat_def split: prod.splits)

lemma initialize_KeyManager:
  "fst (snd (initialize X p (km, w))) =
     km\<lparr>master_keys := (master_keys km)(int (length (stored_versions w)) + 1 \<mapsto>
        derive_key X km p (map (entropy w) [drawn w ..< drawn w + salt_length km]))\<rparr>"
  by (simp add: initialize_def Let_def token_bytes_def stored_versions_def split: prod.splits)

lemma length_keep_recent:
  "1 \<le> n \<Longrightarrow> int (length (keep_recent n vs)) = min (int (length vs)) n"
  by (auto simp: keep_recent_def py_slice_from_def)

lemma initialize_seq_versions:
  assumes "1 \<le> max_versions km"
  shows "initialize_seq X ps (km, w) =
           map (\<lambda>i. (if i = 0 then int (length (stored_versions w))
                      else min (int (length (stored_versions w)) + int i) (max_versions km)) + 1)
               [0 ..< length ps]"
  using assms
proof (induction ps arbitrary: km w)
  case Nil
  show ?case by simp
next
  case (Cons p ps)
  obtain key_meta km' w' where run: "initialize X p (km, w) = (key_meta, km', w')"
    by (cases "initialize X p (km, w)")
  have v: "version key_meta = int (length (stored_versions w)) + 1"
    using initialize_version [of X p km w] run by simp
  have k: "max_versions km' = max_versions km"
    using initialize_KeyManager [of X p km w] run by simp
  have l: "int (length (stored_versions w')) =
             min (int (length (stored_versions w)) + 1) (max_versions km)"
    using initialize_stored_versions [of X p km w] run Cons.prems
    by (simp add: length_keep_recent)
  have rest: "initialize_seq X ps (km', w') =
      map (\<lambda>i. (if i = 0 then int (length (stored_versions w'))
                 else min (int (length (stored_versions w')) + int i) (max_versions km')) + 1)
          [0 ..< length ps]"
    using Cons.IH [of km' w'] Cons.prems k by simp
  have shift: "[0 ..< length (p # ps)] = 0 # map Suc [0 ..< length ps]"
    by (simp add: upt_conv_Cons map_Suc_upt del: upt_Suc)
  show ?case
    unfolding shift using run v rest k l Cons.prems
    by (auto simp: min_def)
qed

text \<open>
  Claim C5: for every sequence of successive \<^verbatim>\<open>initialize\<close> calls on the same key store,
  also after pruning has occurred, the version numbers assigned are strictly increasing.

  The code assigns \<^verbatim>\<open>len(versions) + 1\<close>. Once pruning has cut the list to
  \<^verbatim>\<open>max_versions\<close> entries the length no longer grows, and with the constructor's
  default of 5 the seventh call returns version 6, which the sixth call has already
  assigned.
\<close>

theorem C5_initialize_repeats_version_after_pruning:
  "initialize_seq ref_externals [''p1'', ''p2'', ''p3'', ''p4'', ''p5'', ''p6'', ''p7'']
     (KeyManager_init ''vault_keys'', world0) = [1, 2, 3, 4, 5, 6, 6]"
proof -
  have m0: "max_versions (KeyManager_init ''vault_keys'') = 5"
    by (simp add: KeyManager_init_def)
  have l0: "stored_versions world0 = []"
    by (simp add: stored_versions_def load_metadata_def get_versions_def world0_def)
  have idx: "[0 ..< 7] = [0, 1, 2, 3, 4, 5, 6 :: nat]"
    by (simp add: upt_rec)
  have "1 \<le> max_versions (KeyManager_init ''vault_keys'')"
    by (simp add: m0)
  from initialize_seq_versions [OF this] show ?thesis
    by (simp add: m0 l0 idx del: initialize_seq.simps)
qed

lemma keep_recent_drop:
  assumes "1 \<le> n"
  shows "keep_recent n xs = drop (length xs - nat n) xs"
proof (cases "int (length xs) > n")
  case True
  have "nat (int (length xs) + - n) = length xs - nat n"
    using assms by linarith
  with True assms show ?thesis
    by (simp add: keep_recent_def py_slice_from_def)
next
  case False
  then have "length xs - nat n = 0"
    by linarith
  with False show ?thesis
    by (simp add: keep_recent_def)
qed

lemma keep_recent_snoc:
  assumes "1 \<le> n"
  shows "keep_recent n (xs @ [e]) = drop (Suc (length xs) - nat n) xs @ [e]"
proof -
  have "Suc (length xs) - nat n \<le> length xs"
    using assms by linarith
  then show ?thesis
    by (simp add: keep_recent_drop [OF assms])
qed

lemma filter_active_deactivated: "filter is_active (map deactivate vs) = []"
  by (induction vs) (simp_all add: deactivate_def)

lemma initialize_one_active:
  assumes "1 \<le> max_versions km"
  shows "filter is_active (stored_versions (snd (snd (initialize X p (km, w))))) = [minted km w]"
proof -
  have "filter is_active (drop k (map deactivate (stored_versions w))) = []" for k
    by (simp add: drop_map filter_active_deactivated)
  moreover have "is_active (minted km w)"
    by (simp add: minted_def)
  ultimately show ?thesis
    by (simp add: initialize_stored_versions keep_recent_snoc [OF assms])
qed

lemma length_set_token: "length (set_token ver tok vs) = length vs"
  by (induction vs) simp_all

lemma set_token_is_active: "map is_active (set_token ver tok vs) = map is_active vs"
  by (induction vs) simp_all

lemma set_token_token_added:
  "find (\<lambda>v. version v = ver) vs = Some vd \<Longrightarrow> verification_token vd = None
     \<Longrightarrow> list_all2 token_added_only vs (set_token ver tok vs)"
proof (induction vs)
  case Nil
  then show ?case by simp
next
  case (Cons v vs)
  have refl: "list_all2 token_added_only vs vs"
    by (simp add: list_all2_same token_added_only_def)
  show ?case
  proof (cases "version v = ver")
    case True
    with Cons.prems have "verification_token v = None" by simp
    then have "token_added_only v (v\<lparr>verification_token := Some tok\<rparr>)"
      unfolding token_added_only_def by blast
    with True refl show ?thesis
      by simp
  next
    case False
    have "token_added_only v v"
      by (simp add: token_added_only_def)
    with False Cons show ?thesis
      by simp
  qed
qed


lemma store_verification_token_sized:
  assumes "key_size_ok mk" and "8 \<le> iv_length km" and "iv_length km \<le> 128"
  shows "store_verification_token X km ver mk m w =
           Inr (save_metadata
                  (m\<lparr>versions := Some (set_token ver
                       (hex (map (entropy w) [drawn w ..< drawn w + iv_length km] @
                             aesgcm_encrypt X mk (map (entropy w) [drawn w ..< drawn w + iv_length km])
                               ''vault_verification_v1''))
                       (get_versions m))\<rparr>)
                  (w\<lparr>drawn := drawn w + iv_length km\<rparr>))"
proof -
  have "nonce_size_ok (map (entropy w) [drawn w ..< drawn w + iv_length km])"
    using assms(2,3) by (simp add: nonce_size_ok_def)
  then show ?thesis
    using assms(1)
    by (simp add: store_verification_token_def token_bytes_def AESGCM_def AESGCM_encrypt_def Let_def)
qed

lemma store_verification_token_Inr:
  assumes "store_verification_token X km ver mk m w = Inr w'"
  shows "key_size_ok mk \<and> 8 \<le> iv_length km \<and> iv_length km \<le> 128"
proof -
  from assms have "key_size_ok mk
      \<and> nonce_size_ok (map (entropy w) [drawn w ..< drawn w + iv_length km])"
    by (simp add: store_verification_token_def token_bytes_def AESGCM_encrypt_Inr)
  then show ?thesis
    by (simp add: nonce_size_ok_def)
qed

lemma stored_versions_store_token:
  assumes "store_verification_token X km ver mk (load_metadata w) w = Inr w'"
  shows "stored_versions w' =
     set_token ver (hex (map (entropy w) [drawn w ..< drawn w + iv_length km] @
        aesgcm_encrypt X mk (map (entropy w) [drawn w ..< drawn w + iv_length km])
          ''vault_verification_v1'')) (stored_versions w)"
proof -
  note s = store_verification_token_Inr [OF assms]
  from assms show ?thesis
    unfolding store_verification_token_sized [of mk km, OF s [THEN conjunct1]
        s [THEN conjunct2, THEN conjunct1] s [THEN conjunct2, THEN conjunct2]]
    by (auto simp: stored_versions_def save_metadata_def load_metadata_def get_versions_def)
qed

lemma active_version_store_token:
  assumes "store_verification_token X km ver mk (load_metadata w) w = Inr w'"
  shows "active_version (load_metadata w') = active_version (load_metadata w)"
proof -
  note s = store_verification_token_Inr [OF assms]
  from assms show ?thesis
    unfolding store_verification_token_sized [of mk km, OF s [THEN conjunct1]
        s [THEN conjunct2, THEN conjunct1] s [THEN conjunct2, THEN conjunct2]]
    by (auto simp: save_metadata_def load_metadata_def)
qed

lemma unlock_without_token:
  assumes "version_arg = Some ver \<or> (version_arg = None \<and> active_version (load_metadata w) = Some ver)"
    and "find (\<lambda>v. version v = ver) (stored_versions w) = Some vd"
    and "verification_token vd = None"
    and "fromhex (salt vd) = Some slt"
  shows "unlock X passphrase version_arg (km, w) =
           then_do (store_verification_token X
                      (km\<lparr>master_keys := (master_keys km)(ver \<mapsto> derive_key X km passphrase slt)\<rparr>)
                      ver (derive_key X km passphrase slt) (load_metadata w) w)
             (\<lambda>w'. Inr (True,
                km\<lparr>master_keys := (master_keys km)(ver \<mapsto> derive_key X km passphrase slt)\<rparr>, w'))"
proof -
  have ne: "get_versions (load_metadata w) \<noteq> []"
    using assms(2) by (auto simp: stored_versions_def)
  have ver: "(case version_arg of Some v \<Rightarrow> v
              | None \<Rightarrow> (case active_version (load_metadata w) of Some a \<Rightarrow> a | None \<Rightarrow> 1)) = ver"
    using assms(1) by auto
  show ?thesis
    using ne assms(2-4) unfolding unlock_def stored_versions_def
    by (simp add: ver Let_def)
qed

lemma unlock_effect:
  assumes "unlock X p version_arg (km, w) = Inr (ok, km', w')"
  shows "max_versions km' = max_versions km
       \<and> active_version (load_metadata w') = active_version (load_metadata w)
       \<and> length (stored_versions w') = length (stored_versions w)
       \<and> map is_active (stored_versions w') = map is_active (stored_versions w)
       \<and> list_all2 token_added_only (stored_versions w) (stored_versions w')"
proof -
  have same: "list_all2 token_added_only (stored_versions w) (stored_versions w)"
    by (simp add: list_all2_same token_added_only_def)
  define ver where "ver = (case version_arg of Some v \<Rightarrow> v
              | None \<Rightarrow> (case active_version (load_metadata w) of Some a \<Rightarrow> a | None \<Rightarrow> 1))"
  show ?thesis
  proof (cases "find (\<lambda>v. version v = ver) (stored_versions w)")
    case None
    with assms same show ?thesis
      unfolding unlock_def stored_versions_def ver_def
      by (auto simp: Let_def split: if_splits)
  next
    case (Some vd)
    show ?thesis
    proof (cases "verification_token vd")
      case (Some tok)
      with \<open>find (\<lambda>v. version v = ver) (stored_versions w) = Some vd\<close> assms same show ?thesis
        unfolding unlock_def stored_versions_def ver_def
        by (auto simp: Let_def split: if_splits option.splits)
    next
      case None
      note found = \<open>find (\<lambda>v. version v = ver) (stored_versions w) = Some vd\<close>
      from found None assms
      obtain mk kmx where w': "store_verification_token X kmx ver mk (load_metadata w) w = Inr w'"
        and km': "max_versions km' = max_versions km"
        unfolding unlock_def stored_versions_def ver_def
        by (auto simp: Let_def then_do_eq_Inr split: if_splits option.splits)
      show ?thesis
        using km' found None
        by (simp add: stored_versions_store_token [OF w'] active_version_store_token [OF w']
            length_set_token set_token_is_active set_token_token_added)
    qed
  qed
qed

lemma rotate_master_key_Inr:
  assumes "rotate_master_key X old new (km, w) = Inr (r, km', w')"
  shows "\<exists>km1 w1. (km', w') = snd (initialize X new (km1, w1))
           \<and> max_versions km1 = max_versions km
           \<and> length (stored_versions w1) = length (stored_versions w)"
proof (cases "case active_version (load_metadata w) of None \<Rightarrow> False | Some v \<Rightarrow> master_keys km v \<noteq> None")
  case True
  with assms have "(km', w') = snd (initialize X new (km, w))"
    unfolding rotate_master_key_def by (auto simp: Let_def split: prod.splits)
  then show ?thesis by blast
next
  case False
  with assms obtain km1 w1 where u: "unlock X old (active_version (load_metadata w)) (km, w) = Inr (True, km1, w1)"
    and i: "(km', w') = snd (initialize X new (km1, w1))"
    unfolding rotate_master_key_def
    by (auto simp: Let_def split: prod.splits sum.splits if_splits)
  from unlock_effect [OF u] i show ?thesis by blast
qed

subsection \<open>The running example\<close>

lemma stored_versions_world0: "stored_versions world0 = []"
  by (simp add: stored_versions_def load_metadata_def get_versions_def world0_def)

lemma max_versions_km0: "max_versions km0 = 5"
  by (simp add: km0_def KeyManager_init_def)

lemma bootstrapped_store:
  "stored_versions (snd bootstrapped) = [minted km0 world0]"
  "active_version (load_metadata (snd bootstrapped)) = Some 1"
  "max_versions (fst bootstrapped) = 5"
  by (simp_all add: bootstrapped_def initialize_stored_versions initialize_active_version
      initialize_KeyManager stored_versions_world0 max_versions_km0 keep_recent_def)

lemma length_ref_pbkdf2: "length (ref_pbkdf2 password slt iterations n) = n"
  by (simp add: ref_pbkdf2_def)

lemma ref_kdf_length: "kdf_length ref_externals"
  by (simp add: kdf_length_def ref_externals_def length_ref_pbkdf2)

lemma key_size_derive_key:
  "kdf_length X \<Longrightarrow> accepted_sizes km \<Longrightarrow> key_size_ok (derive_key X km passphrase slt)"
  by (simp add: kdf_length_def accepted_sizes_def key_size_ok_def derive_key_def)

lemma accepted_sizes_km0: "accepted_sizes km0" "accepted_sizes (fst bootstrapped)"
  by (simp_all add: accepted_sizes_def km0_def KeyManager_init_def bootstrapped_def
      initialize_KeyManager)

lemma minted_km0:
  "version (minted km0 world0) = 1" "verification_token (minted km0 world0) = None"
  "fromhex (salt (minted km0 world0)) =
     Some (map (entropy world0) [drawn world0 ..< drawn world0 + salt_length km0])"
  by (simp_all add: minted_def stored_versions_world0 fromhex_hex)

lemma bootstrapped_unlock:
  "\<exists>w'. unlock ref_externals p None bootstrapped = Inr (True,
      (fst bootstrapped)\<lparr>master_keys := (master_keys (fst bootstrapped))(1 \<mapsto>
         derive_key ref_externals (fst bootstrapped) p
           (map (entropy world0) [drawn world0 ..< drawn world0 + salt_length km0]))\<rparr>, w')
   \<and> store_verification_token ref_externals
        ((fst bootstrapped)\<lparr>master_keys := (master_keys (fst bootstrapped))(1 \<mapsto>
         derive_key ref_externals (fst bootstrapped) p
           (map (entropy world0) [drawn world0 ..< drawn world0 + salt_length km0]))\<rparr>)
        1 (derive_key ref_externals (fst bootstrapped) p
           (map (entropy world0) [drawn world0 ..< drawn world0 + salt_length km0]))
        (load_metadata (snd bootstrapped)) (snd bootstrapped) = Inr w'"
proof -
  define slt where "slt = map (entropy world0) [drawn world0 ..< drawn world0 + salt_length km0]"
  define km1 where "km1 = (fst bootstrapped)\<lparr>master_keys := (master_keys (fst bootstrapped))(1 \<mapsto>
         derive_key ref_externals (fst bootstrapped) p slt)\<rparr>"
  have u: "unlock ref_externals p None (fst bootstrapped, snd bootstrapped) =
      then_do (store_verification_token ref_externals km1 1
                 (derive_key ref_externals (fst bootstrapped) p slt)
                 (load_metadata (snd bootstrapped)) (snd bootstrapped))
        (\<lambda>w'. Inr (True, km1, w'))"
    unfolding km1_def slt_def
    by (rule unlock_without_token [where vd = "minted km0 world0"])
       (simp_all add: bootstrapped_store minted_km0)
  have k: "key_size_ok (derive_key ref_externals (fst bootstrapped) p slt)"
    using ref_kdf_length accepted_sizes_km0(2) by (rule key_size_derive_key)
  have i: "8 \<le> iv_length km1" "iv_length km1 \<le> 128"
    using accepted_sizes_km0(2) by (simp_all add: km1_def accepted_sizes_def)
  show ?thesis
    using u unfolding store_verification_token_sized [OF k i] km1_def [symmetric] slt_def [symmetric]
    by simp
qed

subsection \<open>KeyManager: the size of the key store\<close>

text \<open>
  Claim C7 (as amended): with \<^verbatim>\<open>max_versions\<close> at least 1, the key metadata store holds at
  most \<^verbatim>\<open>max_versions\<close> version entries after \<^verbatim>\<open>initialize\<close> and after a
  \<^verbatim>\<open>rotate_master_key\<close> that returns, whatever it held before; \<^verbatim>\<open>unlock\<close> leaves the number
  of entries as it is; and pruning discards the oldest entries first: what it keeps, and
  saves when it has removed something, are the last \<^verbatim>\<open>max_versions\<close> entries in their order.
\<close>

theorem C7_store_holds_at_most_max_versions:
  assumes "1 \<le> max_versions km"
  shows "int (length (stored_versions (snd (snd (initialize X p (km, w)))))) \<le> max_versions km
       \<and> (\<forall>ok km' w'. unlock X p v (km, w) = Inr (ok, km', w')
             \<longrightarrow> length (stored_versions w') = length (stored_versions w))
       \<and> (\<forall>r km' w'. rotate_master_key X p q (km, w) = Inr (r, km', w')
             \<longrightarrow> int (length (stored_versions w')) \<le> max_versions km)
       \<and> get_versions (fst (prune_old_versions km m w)) =
             drop (length (get_versions m) - nat (max_versions km)) (get_versions m)
       \<and> (int (length (get_versions m)) > max_versions km
             \<longrightarrow> stored_versions (snd (prune_old_versions km m w)) =
                   drop (length (get_versions m) - nat (max_versions km)) (get_versions m))"
proof -
  have init: "int (length (stored_versions (snd (snd (initialize X p' (km1, w1)))))) \<le> max_versions km"
    if "max_versions km1 = max_versions km" for p' km1 w1
    using assms that by (simp add: initialize_stored_versions length_keep_recent)
  have unl: "\<forall>ok km' w'. unlock X p v (km, w) = Inr (ok, km', w')
             \<longrightarrow> length (stored_versions w') = length (stored_versions w)"
    using unlock_effect by blast
  have rot: "int (length (stored_versions w')) \<le> max_versions km"
    if "rotate_master_key X p q (km, w) = Inr (r, km', w')" for r km' w'
  proof -
    from rotate_master_key_Inr [OF that] obtain km1 w1
      where "(km', w') = snd (initialize X q (km1, w1))" and "max_versions km1 = max_versions km"
      by blast
    then show ?thesis
      using init [of km1 q w1] by (metis snd_conv)
  qed
  have pr: "get_versions (fst (prune_old_versions km m w)) =
             drop (length (get_versions m) - nat (max_versions km)) (get_versions m)"
    using keep_recent_drop [OF assms, of "get_versions m"]
    by (simp add: prune_old_versions_def Let_def keep_recent_def get_versions_def split: if_splits)
  have ps: "stored_versions (snd (prune_old_versions km m w)) =
              drop (length (get_versions m) - nat (max_versions km)) (get_versions m)"
    if "int (length (get_versions m)) > max_versions km"
    using keep_recent_drop [OF assms, of "get_versions m"] that
    by (simp add: prune_old_versions_def Let_def keep_recent_def get_versions_def stored_versions_def
        save_metadata_def load_metadata_def)
  show ?thesis
    using init [of km p w] unl rot pr ps by blast
qed

theorem C7_store_holds_at_most_max_versions_witness:
  "1 \<le> max_versions km0
   \<and> int (length (stored_versions (snd (snd (initialize ref_externals ''A'' (km0, world0))))))
       \<le> max_versions km0
   \<and> \<not> isl (unlock ref_externals ''B'' None bootstrapped)
   \<and> length (stored_versions (snd (snd (projr (unlock ref_externals ''B'' None bootstrapped)))))
       = length (stored_versions (snd bootstrapped))"
proof -
  have h: "1 \<le> max_versions km0"
    by (simp add: max_versions_km0)
  have h': "1 \<le> max_versions (fst bootstrapped)"
    by (simp add: bootstrapped_store)
  obtain km' w' where u: "unlock ref_externals ''B'' None (fst bootstrapped, snd bootstrapped) = Inr (True, km', w')"
    using bootstrapped_unlock [of "''B''"] by auto
  have "length (stored_versions w') = length (stored_versions (snd bootstrapped))"
    using C7_store_holds_at_most_max_versions [OF h', of ref_externals "''B''" "snd bootstrapped" None] u
    by blast
  with u h C7_store_holds_at_most_max_versions [OF h, of ref_externals "''A''" world0]
  show ?thesis by simp
qed

text \<open>
  Claim C7 as stated, for every configuration, fails at \<^verbatim>\<open>max_versions = 0\<close>: the slice
  \<^verbatim>\<open>versions[-0:]\<close> is the whole list, so the entry that \<^verbatim>\<open>initialize\<close> has just written
  stays and the store holds one entry, more than the configured maximum of zero.
\<close>

theorem C7_counterexample_max_versions_zero:
  "\<not> int (length (stored_versions (snd (snd (initialize ref_externals ''A''
          (km0\<lparr>max_versions := 0\<rparr>, world0))))))
      \<le> max_versions (km0\<lparr>max_versions := 0\<rparr>)"
  by (simp add: initialize_stored_versions stored_versions_world0 keep_recent_def py_slice_from_def)

subsection \<open>KeyManager: active entries\<close>

lemma initialize_earlier_entries:
  assumes "1 \<le> max_versions km"
  shows "butlast (stored_versions (snd (snd (initialize X p (km, w))))) =
           map deactivate (drop (Suc (length (stored_versions w)) - nat (max_versions km))
                             (stored_versions w))"
  by (simp add: initialize_stored_versions keep_recent_snoc [OF assms] drop_map)

text \<open>
  Claim C6 (as amended): with \<^verbatim>\<open>max_versions\<close> at least 1, exactly one entry of the key
  metadata store is active after \<^verbatim>\<open>initialize\<close> and after a \<^verbatim>\<open>rotate_master_key\<close> that
  returns, namely the entry just created; \<^verbatim>\<open>unlock\<close> and pruning leave every
  \<^verbatim>\<open>is_active\<close> flag as it is. An entry, once created, is changed in two ways only:
  \<^verbatim>\<open>initialize\<close> sets \<^verbatim>\<open>is_active\<close> to false in the earlier entries it keeps, and
  \<^verbatim>\<open>unlock\<close> adds the verification token to an entry that has none; pruning removes
  entries from the front and changes none.
\<close>

theorem C6_one_active_version_entries_only_deactivated_or_tokened:
  assumes "1 \<le> max_versions km"
  shows "filter is_active (stored_versions (snd (snd (initialize X p (km, w))))) = [minted km w]
       \<and> butlast (stored_versions (snd (snd (initialize X p (km, w))))) =
           map deactivate (drop (Suc (length (stored_versions w)) - nat (max_versions km))
                             (stored_versions w))
       \<and> (\<forall>ok km' w'. unlock X p v (km, w) = Inr (ok, km', w')
             \<longrightarrow> map is_active (stored_versions w') = map is_active (stored_versions w)
               \<and> list_all2 token_added_only (stored_versions w) (stored_versions w'))
       \<and> (\<forall>r km' w'. rotate_master_key X p q (km, w) = Inr (r, km', w')
             \<longrightarrow> length (filter is_active (stored_versions w')) = 1)
       \<and> get_versions (fst (prune_old_versions km m w)) =
             drop (length (get_versions m) - nat (max_versions km)) (get_versions m)"
proof -
  have unl: "\<forall>ok km' w'. unlock X p v (km, w) = Inr (ok, km', w')
             \<longrightarrow> map is_active (stored_versions w') = map is_active (stored_versions w)
               \<and> list_all2 token_added_only (stored_versions w) (stored_versions w')"
    using unlock_effect by blast
  have rot: "length (filter is_active (stored_versions w')) = 1"
    if "rotate_master_key X p q (km, w) = Inr (r, km', w')" for r km' w'
  proof -
    from rotate_master_key_Inr [OF that] obtain km1 w1
      where s: "(km', w') = snd (initialize X q (km1, w1))" and m: "max_versions km1 = max_versions km"
      by blast
    have "filter is_active (stored_versions (snd (snd (initialize X q (km1, w1))))) = [minted km1 w1]"
      using initialize_one_active [of km1 X q w1] assms m by simp
    with s show ?thesis
      by (metis length_Cons list.size(3) snd_conv One_nat_def)
  qed
  have pr: "get_versions (fst (prune_old_versions km m w)) =
             drop (length (get_versions m) - nat (max_versions km)) (get_versions m)"
    using keep_recent_drop [OF assms, of "get_versions m"]
    by (simp add: prune_old_versions_def Let_def keep_recent_def get_versions_def split: if_splits)
  show ?thesis
    using initialize_one_active [OF assms, of X p w] initialize_earlier_entries [OF assms, of X p w]
      unl rot pr by blast
qed

theorem C6_one_active_version_witness:
  "1 \<le> max_versions km0
   \<and> filter is_active (stored_versions (snd (snd (initialize ref_externals ''A'' (km0, world0)))))
       = [minted km0 world0]
   \<and> \<not> isl (unlock ref_externals ''B'' None bootstrapped)
   \<and> map is_active (stored_versions (snd (snd (projr (unlock ref_externals ''B'' None bootstrapped)))))
       = map is_active (stored_versions (snd bootstrapped))"
proof -
  have h: "1 \<le> max_versions km0"
    by (simp add: max_versions_km0)
  have h': "1 \<le> max_versions (fst bootstrapped)"
    by (simp add: bootstrapped_store)
  obtain km' w' where u: "unlock ref_externals ''B'' None (fst bootstrapped, snd bootstrapped) = Inr (True, km', w')"
    using bootstrapped_unlock [of "''B''"] by auto
  have "map is_active (stored_versions w') = map is_active (stored_versions (snd bootstrapped))"
    using C6_one_active_version_entries_only_deactivated_or_tokened
      [OF h', of ref_externals "''B''" "snd bootstrapped" None] u
    by blast
  with u h C6_one_active_version_entries_only_deactivated_or_tokened [OF h, of ref_externals "''A''" world0]
  show ?thesis by simp
qed

text \<open>
  Claim C6 as stated fails on its second half: the first \<^verbatim>\<open>unlock\<close> after \<^verbatim>\<open>initialize\<close>
  (here with passphrase "A" on the vault initialised with "A") writes a verification token
  into the stored entry of version 1, a change that is not a deactivation.
\<close>

theorem C6_counterexample_unlock_changes_entry:
  "\<not> isl (unlock ref_externals ''A'' None bootstrapped)
   \<and> \<not> list_all2 only_deactivated (stored_versions (snd bootstrapped))
         (stored_versions (snd (snd (projr (unlock ref_externals ''A'' None bootstrapped)))))"
proof -
  from bootstrapped_unlock [of "''A''"] obtain km1 w'
    where u: "unlock ref_externals ''A'' None bootstrapped = Inr (True, km1, w')"
      and st: "\<exists>kmx mk. store_verification_token ref_externals kmx 1 mk
                 (load_metadata (snd bootstrapped)) (snd bootstrapped) = Inr w'"
    by blast
  from st obtain kmx mk tok where "stored_versions w' = set_token 1 tok [minted km0 world0]"
    using stored_versions_store_token by (metis bootstrapped_store(1))
  define e where "e = (minted km0 world0)\<lparr>verification_token := Some tok\<rparr>"
  have sv: "stored_versions w' = [e]"
    using \<open>stored_versions w' = set_token 1 tok [minted km0 world0]\<close>
    by (simp add: minted_km0 e_def)
  have "\<not> only_deactivated (minted km0 world0) e"
  proof
    assume "only_deactivated (minted km0 world0) e"
    then have "verification_token e = verification_token (minted km0 world0)"
      by (auto simp: only_deactivated_def deactivate_def)
    then show False
      by (simp add: e_def minted_km0)
  qed
  then show ?thesis
    using u sv by (simp add: bootstrapped_store)
qed

subsection \<open>KeyManager: \<^verbatim>\<open>unlock\<close> on a version without verification token\<close>




subsection \<open>KeyManager: \<^verbatim>\<open>unwrap_data_key\<close>\<close>

lemma ref_shift_range:
  "((a + s) mod 256 + (256 - s mod 256)) mod 256 = (a :: nat) mod 256"
proof -
  define q where "q = s div 256"
  define r where "r = s mod 256"
  have r: "r < 256" by (simp add: r_def)
  have s: "s = 256 * q + r" by (simp add: q_def r_def)
  have sm: "s mod 256 = r" by (simp add: r_def)
  have "((a + s) mod 256 + (256 - r)) mod 256 = ((a + s) + (256 - r)) mod 256"
    by (rule mod_add_left_eq)
  also have "(a + s) + (256 - r) = a + 256 * (q + 1)"
    using r unfolding s by simp
  also have "(a + 256 * (q + 1)) mod 256 = a mod 256"
    by (rule mod_mult_self2)
  finally show ?thesis unfolding sm .
qed

lemma ref_shift_inverse:
  "char_of ((of_char (char_of ((of_char c :: nat) + s) :: char) :: nat) + (256 - s mod 256)) = c"
proof -
  have "(char_of ((of_char c + s) mod 256 + (256 - s mod 256)) :: char) =
          char_of (((of_char c + s) mod 256 + (256 - s mod 256)) mod 256)"
    by (simp only: char_of_mod_256)
  also have "\<dots> = char_of ((of_char c :: nat) mod 256)"
    by (simp only: ref_shift_range)
  also have "\<dots> = c" by simp
  finally show ?thesis by simp
qed

lemma ref_unmask_mask: "ref_unmask s (ref_mask s data) = data"
  unfolding ref_mask_def ref_unmask_def
  by (simp only: map_map o_def ref_shift_inverse list.map_ident)

lemma length_ref_mask: "length (ref_mask s data) = length data"
  by (simp add: ref_mask_def)

lemma ref_decrypt_encrypt: "ref_decrypt key nonce (ref_encrypt key nonce data) = Some data"
  by (simp add: ref_encrypt_def ref_decrypt_def Let_def ref_tag_def ref_unmask_mask length_ref_mask)

lemma ref_aead_correct: "aead_correct ref_externals"
  by (simp add: aead_correct_def ref_externals_def ref_decrypt_encrypt)

lemma bootstrapped_key:
  "\<exists>mk. master_keys (fst bootstrapped) 1 = Some mk \<and> key_size_ok mk"
proof -
  have "key_size_ok (derive_key ref_externals km0 ''A'' slt)" for slt
    using ref_kdf_length accepted_sizes_km0(1) by (rule key_size_derive_key)
  then show ?thesis
    by (simp add: bootstrapped_def initialize_KeyManager stored_versions_world0)
qed

text \<open>
  Claim C4 (as amended): for every WrappedDataKey whose \<^verbatim>\<open>master_key_version\<close> is not in
  the cache of unlocked keys, \<^verbatim>\<open>unwrap_data_key\<close> fails with the KeyNotUnlocked condition.
  For every WrappedDataKey whose version is unlocked it never does: it raises
  \<^verbatim>\<open>ValueError\<close> when the cached master key is not 16, 24 or 32 bytes long or the nonce
  \<^verbatim>\<open>iv\<close> is not between 8 and 128 bytes long; otherwise it returns what the authenticated
  decryption of \<^verbatim>\<open>wrapped_key\<close> under that master key and nonce yields, which is the data
  key, in particular the key that was wrapped under that master key and nonce, or the
  authentication failure \<^verbatim>\<open>InvalidTag\<close>.
\<close>

theorem C4_unwrap_data_key_needs_unlocked_version:
  "(master_keys km (master_key_version wrapped) = None
      \<longrightarrow> unwrap_data_key X km wrapped = Inl (RuntimeError KeyNotUnlocked))
   \<and> (\<forall>master_key. master_keys km (master_key_version wrapped) = Some master_key
      \<longrightarrow> unwrap_data_key X km wrapped =
            (if \<not> key_size_ok master_key \<or> \<not> nonce_size_ok (iv wrapped) then Inl ValueError
             else case aesgcm_decrypt X master_key (iv wrapped) (wrapped_key wrapped) of
                    None \<Rightarrow> Inl InvalidTag
                  | Some data_key \<Rightarrow> Inr data_key))
   \<and> (\<forall>master_key data_key. aead_correct X
        \<and> master_keys km (master_key_version wrapped) = Some master_key
        \<and> key_size_ok master_key \<and> nonce_size_ok (iv wrapped)
        \<and> wrapped_key wrapped = aesgcm_encrypt X master_key (iv wrapped) data_key
      \<longrightarrow> unwrap_data_key X km wrapped = Inr data_key)"
  by (auto simp: unwrap_data_key_def aead_correct_def AESGCM_def AESGCM_decrypt_def)

theorem C4_unwrap_data_key_witness:
  "\<exists>mk. master_keys (fst bootstrapped) 1 = Some mk \<and> key_size_ok mk
     \<and> nonce_size_ok ''123456789012''
     \<and> master_keys (fst bootstrapped) 2 = None
     \<and> unwrap_data_key ref_externals (fst bootstrapped)
          \<lparr>wrapped_key = aesgcm_encrypt ref_externals mk ''123456789012'' ''data key'',
           iv = ''123456789012'', master_key_version = 2, wdk_created_at = ''t''\<rparr>
         = Inl (RuntimeError KeyNotUnlocked)
     \<and> unwrap_data_key ref_externals (fst bootstrapped)
          \<lparr>wrapped_key = aesgcm_encrypt ref_externals mk ''123456789012'' ''data key'',
           iv = ''123456789012'', master_key_version = 1, wdk_created_at = ''t''\<rparr>
         = Inr ''data key''"
proof -
  from bootstrapped_key obtain mk
    where cached: "master_keys (fst bootstrapped) 1 = Some mk" and ks: "key_size_ok mk"
    by blast
  let ?w = "\<lambda>v. \<lparr>wrapped_key = aesgcm_encrypt ref_externals mk ''123456789012'' ''data key'',
                 iv = ''123456789012'', master_key_version = v, wdk_created_at = ''t''\<rparr>"
  have ns: "nonce_size_ok ''123456789012''"
    by (simp add: nonce_size_ok_def)
  have locked: "master_keys (fst bootstrapped) 2 = None"
    by (simp add: bootstrapped_def initialize_KeyManager stored_versions_world0 km0_def
        KeyManager_init_def)
  have l: "master_keys (fst bootstrapped) (master_key_version (?w 2)) = None"
    using locked by simp
  have c: "master_keys (fst bootstrapped) (master_key_version (?w 1)) = Some mk"
    using cached by simp
  have n: "nonce_size_ok (iv (?w 1))"
    using ns by simp
  have made: "wrapped_key (?w 1) = aesgcm_encrypt ref_externals mk (iv (?w 1)) ''data key''"
    by simp
  have "unwrap_data_key ref_externals (fst bootstrapped) (?w 2) = Inl (RuntimeError KeyNotUnlocked)"
    using C4_unwrap_data_key_needs_unlocked_version [of "fst bootstrapped" "?w 2" ref_externals] l
    by blast
  moreover have "unwrap_data_key ref_externals (fst bootstrapped) (?w 1) = Inr ''data key''"
    using C4_unwrap_data_key_needs_unlocked_version [of "fst bootstrapped" "?w 1" ref_externals]
      ref_aead_correct c ks n made
    by blast
  ultimately show ?thesis
    using cached ks ns locked by blast
qed

text \<open>
  Claim C4 as stated, that every WrappedDataKey whose version is unlocked is unwrapped to a
  data key, fails in two ways on the vault initialised with passphrase "A", where version
  1 is unlocked. A \<^verbatim>\<open>wrapped_key\<close> of no bytes at all, shorter than the 16-byte tag, makes
  the decryption raise \<^verbatim>\<open>InvalidTag\<close>; and a nonce \<^verbatim>\<open>iv\<close> of no bytes, the default of the
  dataclass, makes it raise \<^verbatim>\<open>ValueError\<close>.
\<close>

theorem C4_counterexample_unlocked_version_invalid_tag:
  "master_keys (fst bootstrapped) (master_key_version truncated_key) \<noteq> None
   \<and> unwrap_data_key ref_externals (fst bootstrapped) truncated_key = Inl InvalidTag
   \<and> master_keys (fst bootstrapped) (master_key_version (truncated_key\<lparr>iv := []\<rparr>)) \<noteq> None
   \<and> unwrap_data_key ref_externals (fst bootstrapped) (truncated_key\<lparr>iv := []\<rparr>) = Inl ValueError"
proof -
  from bootstrapped_key obtain mk
    where cached: "master_keys (fst bootstrapped) 1 = Some mk" and ks: "key_size_ok mk"
    by blast
  then show ?thesis
    by (simp add: unwrap_data_key_def truncated_key_def ref_externals_def ref_decrypt_def
        AESGCM_def AESGCM_decrypt_def nonce_size_ok_def)
qed

subsection \<open>IntegrityVerifier: a sidecar store that is corrupt\<close>

lemma files_only [simp]:
  "isfile (w\<lparr>ticks := t\<rparr>) p = isfile w p"
  "isdir (w\<lparr>ticks := t\<rparr>) p = isdir w p"
  "read_file (w\<lparr>ticks := t\<rparr>) p = read_file w p"
  "isfile (w\<lparr>drawn := d\<rparr>) p = isfile w p"
  "isdir (w\<lparr>drawn := d\<rparr>) p = isdir w p"
  "read_file (w\<lparr>drawn := d\<rparr>) p = read_file w p"
  "isfile (w\<lparr>hmac_store := h\<rparr>) p = isfile w p"
  "isdir (w\<lparr>hmac_store := h\<rparr>) p = isdir w p"
  "read_file (w\<lparr>hmac_store := h\<rparr>) p = read_file w p"
  "isfile (w\<lparr>manifest_store := m\<rparr>) p = isfile w p"
  "isdir (w\<lparr>manifest_store := m\<rparr>) p = isdir w p"
  "read_file (w\<lparr>manifest_store := m\<rparr>) p = read_file w p"
  "isfile (w\<lparr>key_store := k\<rparr>) p = isfile w p"
  "isdir (w\<lparr>key_store := k\<rparr>) p = isdir w p"
  "read_file (w\<lparr>key_store := k\<rparr>) p = read_file w p"
  by (simp_all add: isfile_def isdir_def read_file_def)

text \<open>
  Where \<^verbatim>\<open>verify_file\<close> does report \<^verbatim>\<open>missing\<close>: when the vault file is not a file on
  disk, whatever the state of the sidecar store, and when the file exists and the
  sidecar store is absent or is a JSON object in which the file has no entry or an entry
  that Python takes for false (\<^verbatim>\<open>null\<close>, \<^verbatim>\<open>false\<close>, 0, an empty string, list or object).
\<close>

lemma verify_file_reports_missing:
  "(\<not> isfile w vault_path
      \<or> hmac_store w = NoFile
      \<or> (\<exists>kvs. hmac_store w = Content (JDict kvs)
            \<and> (case map_of kvs (basename vault_path) of None \<Rightarrow> True | Some stored \<Rightarrow> \<not> truthy stored)))
   \<longrightarrow> (\<exists>r w'. verify_file X J v vault_path w = Inr (r, w') \<and> status r = ''missing'')"
  by (auto simp: verify_file_def Let_def load_store_def dict_get_def now_isoformat_def
      split: option.splits)

text \<open>
  Claim C9: for every state of the integrity sidecar store in which the entry for a vault
  file is corrupt (unparseable store or a malformed entry), \<^verbatim>\<open>verify_file\<close> on that file
  returns an IntegrityResult with status \<^verbatim>\<open>missing\<close>; it never raises an unhandled
  exception.

  The code does not do this, on either kind of corruption the claim names. With a sidecar
  store that \<^verbatim>\<open>json.load\<close> rejects, \<^verbatim>\<open>_load_store\<close> raises \<^verbatim>\<open>JSONDecodeError\<close>; with an
  entry that is a string, \<^verbatim>\<open>stored["hmac"]\<close> raises \<^verbatim>\<open>TypeError\<close>. Neither statement stands
  in a \<^verbatim>\<open>try\<close> block, although \<^verbatim>\<open>verify_file\<close> guards the reading of the header and the
  computing of the HMAC and its documentation promises an IntegrityResult with status
  verified, tampered, missing or error. In both cases the vault file exists and no
  IntegrityResult is returned.
\<close>

theorem C9_verify_file_raises_on_corrupt_store:
  "isfile world_unparseable_store ''vault_data/b.vault''
   \<and> verify_file ref_externals ref_codec verifier0 ''vault_data/b.vault'' world_unparseable_store
       = Inl JSONDecodeError
   \<and> isfile world_malformed_entry ''vault_data/b.vault''
   \<and> verify_file ref_externals ref_codec verifier0 ''vault_data/b.vault'' world_malformed_entry
       = Inl TypeError"
proof -
  have b: "basename ''vault_data/b.vault'' = ''b.vault''"
    by (simp add: basename_def)
  have f1: "isfile world_unparseable_store ''vault_data/b.vault''"
    by (simp add: isfile_def world_unparseable_store_def world0_def)
  have f2: "isfile world_malformed_entry ''vault_data/b.vault''"
    by (simp add: isfile_def world_malformed_entry_def world0_def)
  have s1: "hmac_store world_unparseable_store = Unparseable"
    by (simp add: world_unparseable_store_def)
  have s2: "hmac_store world_malformed_entry = Content (JDict [(''b.vault'', JStr ''garbage'')])"
    by (simp add: world_malformed_entry_def)
  have v1: "verify_file ref_externals ref_codec verifier0 ''vault_data/b.vault'' world_unparseable_store
       = Inl JSONDecodeError"
    using f1 by (simp add: verify_file_def Let_def load_store_def s1 now_isoformat_def)
  have v2: "verify_file ref_externals ref_codec verifier0 ''vault_data/b.vault'' world_malformed_entry
       = Inl TypeError"
    using f2 by (simp add: verify_file_def Let_def load_store_def s2 b dict_get_def subscript_def
        now_isoformat_def)
  show ?thesis
    using f1 f2 v1 v2 by simp
qed

subsection \<open>The reference codec meets the interface\<close>

lemma hexdigit_in: "n < 16 \<Longrightarrow> hexdigit n \<in> set ''0123456789abcdef''"
  unfolding hexdigit_def by (rule nth_mem) simp

lemma set_hex: "set (hex b) \<subseteq> set ''0123456789abcdef''"
proof (induction b)
  case Nil
  show ?case by (simp add: hex_def)
next
  case (Cons c b)
  have "hex (c # b) = hexdigit ((of_char c :: nat) div 16) # hexdigit ((of_char c :: nat) mod 16) # hex b"
    by (simp add: hex_def)
  with Cons hexdigit_in [OF nibbles_less(1), of c] hexdigit_in [OF nibbles_less(2), of c]
  show ?case by simp
qed

lemma hex_free:
  "CHR '':'' \<notin> set (hex b)" "CHR '';'' \<notin> set (hex b)" "CHR 0x0A \<notin> set (hex b)"
  using set_hex [of b] by auto

lemma enc_val_free: "CHR '';'' \<notin> set (enc_val j)" "CHR 0x0A \<notin> set (enc_val j)"
  using hex_free by (auto simp: enc_val_def split: json.splits)

lemma enc_item_free: "CHR 0x0A \<notin> set (enc_item kv)"
  using hex_free enc_val_free by (simp add: enc_item_def)

lemma ref_dumps_no_newline: "CHR 0x0A \<notin> set (ref_dumps h)"
  using enc_item_free by (auto simp: ref_dumps_def split: json.splits)

lemma split_items_item:
  "CHR '';'' \<notin> set xs \<Longrightarrow>
     split_items acc (xs @ CHR '';'' # rest) = map_option ((#) (rev acc @ xs)) (split_items [] rest)"
  by (induction xs arbitrary: acc) auto

lemma takeWhile_until:
  "c \<notin> set xs \<Longrightarrow> takeWhile (\<lambda>x. x \<noteq> c) (xs @ c # ys) = xs"
  by (induction xs) auto

lemma split_items_concat:
  "split_items [] (concat (map enc_item kvs)) =
     Some (map (\<lambda>kv. hex (fst kv) @ CHR '':'' # enc_val (snd kv)) kvs)"
proof (induction kvs)
  case Nil
  show ?case by simp
next
  case (Cons kv kvs)
  have free: "CHR '';'' \<notin> set (hex (fst kv) @ CHR '':'' # enc_val (snd kv))"
    using hex_free enc_val_free by simp
  have "enc_item kv @ concat (map enc_item kvs) =
          (hex (fst kv) @ CHR '':'' # enc_val (snd kv)) @ CHR '';'' # concat (map enc_item kvs)"
    by (simp add: enc_item_def)
  then show ?case
    using split_items_item [OF free, of "[]" "concat (map enc_item kvs)"] Cons.IH by simp
qed

lemma dec_val_enc_val: "scalar j \<Longrightarrow> dec_val (enc_val j) = Some j"
  by (cases j) (auto simp: scalar_def enc_val_def dec_val_def fromhex_hex)

lemma dec_item_enc:
  assumes "scalar (snd kv)"
  shows "dec_item (hex (fst kv) @ CHR '':'' # enc_val (snd kv)) = Some kv"
proof -
  have t: "takeWhile (\<lambda>c. c \<noteq> CHR '':'') (hex (fst kv) @ CHR '':'' # enc_val (snd kv)) = hex (fst kv)"
    using hex_free(1) [of "fst kv"] by (rule takeWhile_until)
  show ?thesis
    unfolding dec_item_def t using assms
    by (simp add: Let_def fromhex_hex dec_val_enc_val)
qed

lemma those_dec_items:
  "list_all (\<lambda>kv. scalar (snd kv)) kvs \<Longrightarrow>
     those (map dec_item (map (\<lambda>kv. hex (fst kv) @ CHR '':'' # enc_val (snd kv)) kvs)) = Some kvs"
proof (induction kvs)
  case Nil
  show ?case by simp
next
  case (Cons kv kvs)
  then have "scalar (snd kv)" and "those (map dec_item (map (\<lambda>kv. hex (fst kv) @ CHR '':'' # enc_val (snd kv)) kvs)) = Some kvs"
    by simp_all
  then show ?case
    using dec_item_enc [of kv] by (simp del: map_map)
qed

lemma ref_dumps_not_null: "ref_dumps (JDict kvs) \<noteq> ''null''"
proof
  assume "ref_dumps (JDict kvs) = ''null''"
  then have "CHR ''n'' \<in> set (concat (map enc_item kvs))"
    by (simp add: ref_dumps_def)
  then obtain kv where "CHR ''n'' \<in> set (enc_item kv)"
    by auto
  then show False
    using set_hex [of "fst kv"] set_hex
    by (auto simp: enc_item_def enc_val_def split: json.splits if_splits)
qed

lemma ref_codec_ok: "codec_ok ref_codec"
proof -
  have "ref_loads (ref_dumps h) = Some h" if "flat_dict h" for h
  proof -
    from that obtain kvs where h: "h = JDict kvs" and sc: "list_all (\<lambda>kv. scalar (snd kv)) kvs"
      by (auto simp: flat_dict_def split: json.splits)
    have "ref_loads (ref_dumps (JDict kvs)) = Some (JDict kvs)"
      using ref_dumps_not_null [of kvs] those_dec_items [OF sc]
      by (simp add: ref_loads_def split_items_concat) (simp add: ref_dumps_def split_items_concat)
    with h show ?thesis by simp
  qed
  then show ?thesis
    by (simp add: codec_ok_def ref_codec_def ref_dumps_no_newline)
qed

subsection \<open>Batch operations and per-file failures\<close>

lemma rewrap_each_total:
  "\<exists>n log w'. rewrap_each X J fv paths count warnings w = (count + n, warnings @ log, w')
      \<and> n + length log = length paths"
proof (induction paths arbitrary: count warnings w)
  case Nil
  show ?case by simp
next
  case (Cons p paths)
  show ?case
  proof (cases "rewrap_vault_file X J fv p w")
    case (Inl e)
    from Cons.IH [of count "warnings @ [(p, e)]" w] Inl show ?thesis
      by auto
  next
    case (Inr w1)
    from Cons.IH [of "count + 1" warnings w1] Inr show ?thesis
      by (auto simp: add.assoc)
  qed
qed

lemma rotate_keys_returns:
  assumes "rotate_master_key X old_passphrase new_passphrase (key_manager fv, w) = Inr (r, km', w1)"
  shows "\<exists>n log w'. rotate_keys X J old_passphrase new_passphrase (fv, w)
           = Inr ((n, log), fv\<lparr>key_manager := km'\<rparr>, w')
         \<and> n + length log = length (list_vault_files (fv\<lparr>key_manager := km'\<rparr>) w1)"
proof -
  obtain n log w' where "rewrap_each X J (fv\<lparr>key_manager := km'\<rparr>)
        (list_vault_files (fv\<lparr>key_manager := km'\<rparr>) w1) 0 [] w1 = (n, log, w')"
      and "n + length log = length (list_vault_files (fv\<lparr>key_manager := km'\<rparr>) w1)"
    using rewrap_each_total [of X J "fv\<lparr>key_manager := km'\<rparr>"
        "list_vault_files (fv\<lparr>key_manager := km'\<rparr>) w1" 0 "[]" w1]
    by auto
  with assms show ?thesis
    by (cases r) (simp add: rotate_keys_def Let_def)
qed

text \<open>
  Claim C8: for every set of vault files in which some file causes a per-file failure,
  the batch operations \<^verbatim>\<open>rotate_keys\<close> and \<^verbatim>\<open>resign_all\<close> do not abort on the first
  per-file error: each continues over the remaining files, logs the failure and returns
  the count of files processed successfully.

  \<^verbatim>\<open>rotate_keys\<close> does so (its loop catches the exception, see \<open>rotate_keys_returns\<close>);
  \<^verbatim>\<open>resign_all\<close> does not: it calls \<^verbatim>\<open>sign_file\<close> outside any \<^verbatim>\<open>try\<close>. With a vault
  directory that lists a directory named \<^verbatim>\<open>a.vault\<close> before the vault file \<^verbatim>\<open>b.vault\<close>,
  \<^verbatim>\<open>sign_file\<close> raises \<^verbatim>\<open>FileNotFoundError\<close> for the first name and \<^verbatim>\<open>resign_all\<close> ends with
  that exception: \<^verbatim>\<open>b.vault\<close> is never signed and no count is returned.
\<close>

theorem C8_resign_all_aborts_on_first_failure:
  "listdir world_with_directory (verifier_dir verifier0) = [''a.vault'', ''b.vault'']
   \<and> isfile world_with_directory ''vault_data/b.vault''
   \<and> resign_all ref_externals verifier0 world_with_directory = Inl FileNotFoundError"
proof -
  have l: "listdir world_with_directory ''vault_data'' = [''a.vault'', ''b.vault'']"
    by (simp add: listdir_def world_with_directory_def world0_def basename_def join_def)
  have d: "isdir world_with_directory ''vault_data''"
    by (simp add: isdir_def world_with_directory_def world0_def)
  have a: "\<not> isfile world_with_directory ''vault_data/a.vault''"
    by (simp add: isfile_def world_with_directory_def world0_def)
  have b: "isfile world_with_directory ''vault_data/b.vault''"
    by (simp add: isfile_def world_with_directory_def world0_def)
  have j: "join ''vault_data'' ''a.vault'' = ''vault_data/a.vault''"
    by (simp add: join_def)
  have e: "endswith ''a.vault'' ''.vault''"
    by (simp add: endswith_def)
  have "resign_all ref_externals verifier0 world_with_directory = Inl FileNotFoundError"
    using d a by (simp add: resign_all_def verifier0_def l e j sign_file_def)
  with l b show ?thesis
    by (simp add: verifier0_def)
qed

subsection \<open>Files\<close>

lemma read_file_write_file:
  assumes "write_file p b w = Inr w'"
  shows "read_file w' q = (if q = p then Inr b else read_file w q)"
  using assms
  by (auto simp: write_file_def read_file_def update_conv' split: if_splits)

lemma isdir_write_file:
  assumes "write_file p b w = Inr w'"
  shows "isdir w' q = isdir w q"
  using assms
  by (auto simp: write_file_def isdir_def update_conv' split: if_splits)

lemma write_file_stores:
  assumes "write_file p b w = Inr w'"
  shows "key_store w' = key_store w" "hmac_store w' = hmac_store w"
    "manifest_store w' = manifest_store w" "drawn w' = drawn w" "entropy w' = entropy w"
    "ticks w' = ticks w" "clock w' = clock w"
  using assms by (auto simp: write_file_def split: if_splits)

lemma write_file_returns:
  "\<not> isdir w p \<Longrightarrow> dirname p = [] \<or> isdir w (dirname p)
     \<Longrightarrow> write_file p b w = Inr (w\<lparr>files := AList.update p (File b) (files w)\<rparr>)"
  by (auto simp: write_file_def)

lemma isfile_read_file: "isfile w p \<longleftrightarrow> (\<exists>b. read_file w p = Inr b)"
  by (auto simp: isfile_def read_file_def split: option.splits node.splits)

lemma make_each_keeps:
  "make_each ps fs = Inr fs' \<Longrightarrow> map_of fs q = Some n \<Longrightarrow> map_of fs' q = Some n"
proof (induction ps arbitrary: fs)
  case Nil
  then show ?case by simp
next
  case (Cons p ps)
  show ?case
  proof (cases "map_of fs p")
    case None
    with Cons.prems have "make_each ps (fs @ [(p, Dir)]) = Inr fs'" by simp
    moreover have "map_of (fs @ [(p, Dir)]) q = Some n"
      using Cons.prems(2) by (simp add: map_add_Some_iff)
    ultimately show ?thesis by (rule Cons.IH)
  next
    case (Some m)
    with Cons.prems have "make_each ps fs = Inr fs'"
      by (cases m) simp_all
    then show ?thesis using Cons.prems(2) by (rule Cons.IH)
  qed
qed

lemma read_file_makedirs:
  assumes "makedirs d w = Inr w'" and "read_file w q = Inr b"
  shows "read_file w' q = Inr b"
proof -
  from assms(1) obtain fs where m: "make_each (ancestors d) (files w) = Inr fs" and w': "w' = w\<lparr>files := fs\<rparr>"
    by (auto simp: makedirs_def then_do_eq_Inr split: if_splits)
  from assms(2) have "map_of (files w) q = Some (File b)"
    by (auto simp: read_file_def split: option.splits node.splits)
  from make_each_keeps [OF m this] show ?thesis
    by (simp add: w' read_file_def)
qed

lemma makedirs_stores:
  assumes "makedirs d w = Inr w'"
  shows "key_store w' = key_store w" "hmac_store w' = hmac_store w"
    "manifest_store w' = manifest_store w" "drawn w' = drawn w" "entropy w' = entropy w"
    "ticks w' = ticks w" "clock w' = clock w"
  using assms by (auto simp: makedirs_def then_do_eq_Inr split: if_splits)

subsection \<open>The layout of a vault file\<close>

lemma newline_index_header:
  "CHR 0x0A \<notin> set hb \<Longrightarrow> newline_index (hb @ CHR 0x0A # ct) = Inr (length hb)"
  by (simp add: newline_index_def takeWhile_until)

lemma split_vault_file_layout:
  assumes "codec_ok J" and "flat_dict header"
  shows "split_vault_file J (json_dumps J header @ CHR 0x0A # ct) = Inr (header, ct)"
proof -
  have n: "CHR 0x0A \<notin> set (json_dumps J header)"
    using assms(1) by (simp add: codec_ok_def)
  have l: "json_loads J (json_dumps J header) = Some header"
    using assms by (simp add: codec_ok_def)
  show ?thesis
    by (simp add: split_vault_file_def newline_index_header [OF n] l)
qed

lemma header_wrapped_key_fields:
  assumes "header_fields header name wk wiv ver nonce"
  shows "header_wrapped_key header = Inr (wk, wiv, JInt ver)"
  using assms
  by (simp add: header_fields_def header_wrapped_key_def json_fromhex_def fromhex_hex)

lemma dict_get_fields:
  assumes "header_fields header name wk wiv ver nonce"
  shows "dict_get header ''original_name'' dflt = Inr (JStr name)"
proof -
  from assms have "subscript header ''original_name'' = Inr (JStr name)"
    by (simp add: header_fields_def)
  then show ?thesis
    by (cases header) (auto simp: dict_get_def subscript_def split: option.splits)
qed

lemma decrypt_file_vault_layout:
  assumes "codec_ok J"
    and "read_file w vault_path = Inr (json_dumps J header @ CHR 0x0A # ct)"
    and "header_fields header name wk wiv ver nonce"
    and "master_keys (key_manager fv) ver = Some mk"
    and "aesgcm_decrypt X mk wiv wk = Some dk"
    and "key_size_ok mk" and "nonce_size_ok wiv" and "key_size_ok dk" and "nonce_size_ok nonce"
  shows "decrypt_file X J fv vault_path output_dir w =
           (case aesgcm_decrypt X dk nonce ct of
              None \<Rightarrow> Inl InvalidTag
            | Some plaintext \<Rightarrow>
                then_do (write_file (join (case output_dir of None \<Rightarrow> dirname vault_path | Some d \<Rightarrow> d) name)
                           plaintext w)
                  (\<lambda>w'. Inr (join (case output_dir of None \<Rightarrow> dirname vault_path | Some d \<Rightarrow> d) name, w')))"
proof -
  have f: "isfile w vault_path"
    using assms(2) by (auto simp: isfile_read_file)
  have fl: "flat_dict header"
    using assms(3) by (simp add: header_fields_def)
  have civ: "then_do (subscript header ''content_iv'') json_fromhex = Inr nonce"
    using assms(3) by (simp add: header_fields_def json_fromhex_def fromhex_hex)
  show ?thesis
    using f
    by (simp add: decrypt_file_def assms(2) split_vault_file_layout [OF assms(1) fl]
        header_wrapped_key_fields [OF assms(3)] as_version_def unwrap_data_key_def assms(4-9)
        AESGCM_def AESGCM_decrypt_def
        civ dict_get_fields [OF assms(3)] Let_def split: option.splits)
qed

subsection \<open>FileVault: \<^verbatim>\<open>encrypt_file\<close>\<close>

lemma generate_data_key_Inr:
  assumes "generate_data_key X km w = Inr ((data_key, wrapped), w2)"
  shows "\<exists>av mk. active_version (load_metadata w) = Some av \<and> master_keys km av = Some mk
           \<and> key_size_ok mk \<and> nonce_size_ok (iv wrapped)
           \<and> length data_key = data_key_length km
           \<and> master_key_version wrapped = av
           \<and> wrapped_key wrapped = aesgcm_encrypt X mk (iv wrapped) data_key
           \<and> files w2 = files w \<and> key_store w2 = key_store w
           \<and> manifest_store w2 = manifest_store w \<and> hmac_store w2 = hmac_store w"
  using assms
  by (auto simp: generate_data_key_def Let_def token_bytes_def now_isoformat_def
      AESGCM_encrypt_Inr split: option.splits if_splits)

lemma update_manifest_Inr:
  assumes "update_manifest e w = Inr w'"
  shows "files w' = files w \<and> key_store w' = key_store w \<and> hmac_store w' = hmac_store w"
proof -
  from assms obtain m where "load_manifest w = Inr m"
    and rest: "(case m of
         JDict kvs \<Rightarrow>
           then_do (case map_of kvs ''entries'' of
                      None \<Rightarrow> Inr []
                    | Some (JList es) \<Rightarrow> Inr es
                    | Some _ \<Rightarrow> Inl AttributeError) (\<lambda>es.
             case now_isoformat w of (now, w1) \<Rightarrow>
             let es' = es @ [entry_asdict e];
                 kvs1 = AList.update ''entries'' (JList es') kvs;
                 kvs2 = AList.update ''last_updated'' (JStr now) kvs1;
                 kvs3 = AList.update ''total_files'' (JInt (int (length es'))) kvs2
             in Inr (w1\<lparr>manifest_store := Content (JDict kvs3)\<rparr>))
       | _ \<Rightarrow> Inl TypeError) = Inr w'"
    unfolding update_manifest_def then_do_eq_Inr by blast
  show ?thesis
  proof (cases m)
    case (JDict kvs)
    show ?thesis
    proof (cases "case map_of kvs ''entries'' of
                      None \<Rightarrow> Inr []
                    | Some (JList es) \<Rightarrow> Inr es
                    | Some _ \<Rightarrow> Inl AttributeError")
      case (Inl err)
      with rest JDict show ?thesis by simp
    next
      case (Inr es)
      with rest JDict show ?thesis
        by (auto simp: now_isoformat_def Let_def)
    qed
  qed (use rest in simp_all)
qed

lemma read_file_files: "files w' = files w \<Longrightarrow> read_file w' p = read_file w p"
  by (simp add: read_file_def)

lemma isdir_files: "files w' = files w \<Longrightarrow> isdir w' p = isdir w p"
  by (simp add: isdir_def)

lemma encrypt_file_Inr:
  assumes "encrypt_file X J fv file_path w = Inr (entry, w')"
  shows "\<exists>plaintext av mk data_key knonce cnonce now.
      read_file w file_path = Inr plaintext
    \<and> active_version (load_metadata w) = Some av
    \<and> master_keys (key_manager fv) av = Some mk
    \<and> key_size_ok mk \<and> nonce_size_ok knonce \<and> key_size_ok data_key \<and> nonce_size_ok cnonce
    \<and> entry_vault_path entry = join (vault_dir fv) (basename file_path @ encrypted_extension fv)
    \<and> entry_original_name entry = basename file_path
    \<and> entry_master_key_version entry = av
    \<and> read_file w' (entry_vault_path entry) =
         Inr (json_dumps J (vault_header (basename file_path) (int (length plaintext)) now
                (aesgcm_encrypt X mk knonce data_key) knonce av cnonce)
              @ CHR 0x0A # aesgcm_encrypt X data_key cnonce plaintext)
    \<and> key_store w' = key_store w
    \<and> hmac_store w' = hmac_store w
    \<and> (\<exists>w1. makedirs (vault_dir fv) w = Inr w1 \<and> (\<forall>q. isdir w' q = isdir w1 q))
    \<and> (\<forall>q b. q \<noteq> entry_vault_path entry \<longrightarrow> read_file w q = Inr b
           \<longrightarrow> read_file w' q = Inr b)"
proof -
  from assms have f: "isfile w file_path"
    by (auto simp: encrypt_file_def split: if_splits)
  then obtain plaintext where r: "read_file w file_path = Inr plaintext"
    by (auto simp: isfile_read_file)
  from assms f obtain w1 where m: "makedirs (vault_dir fv) w = Inr w1"
    by (auto simp: encrypt_file_def then_do_eq_Inr)
  have r1: "read_file w1 file_path = Inr plaintext"
    using read_file_makedirs [OF m r] .
  from assms f m r1 obtain data_key wrapped w2
    where g: "generate_data_key X (key_manager fv) w1 = Inr ((data_key, wrapped), w2)"
    by (auto simp: encrypt_file_def then_do_eq_Inr)
  from generate_data_key_Inr [OF g] obtain av mk
    where av: "active_version (load_metadata w1) = Some av"
      and mk: "master_keys (key_manager fv) av = Some mk"
      and wv: "master_key_version wrapped = av"
      and wk: "wrapped_key wrapped = aesgcm_encrypt X mk (iv wrapped) data_key"
      and k2: "key_store w2 = key_store w1"
      and sk: "key_size_ok mk" "nonce_size_ok (iv wrapped)"
    by blast
  define cnonce where "cnonce = fst (token_bytes (content_iv_length fv) w2)"
  have sc: "key_size_ok data_key" "nonce_size_ok cnonce"
    using assms f
    by (simp_all add: encrypt_file_def m r1 g case_prod_beta AESGCM_encrypt_Inr cnonce_def)
  define w3 where "w3 = snd (token_bytes (content_iv_length fv) w2)"
  define now where "now = fst (now_isoformat w3)"
  define w4 where "w4 = snd (now_isoformat w3)"
  define vp where "vp = join (vault_dir fv) (basename file_path @ encrypted_extension fv)"
  define raw where "raw = json_dumps J (vault_header (basename file_path) (int (length plaintext)) now
                (aesgcm_encrypt X mk (iv wrapped) data_key) (iv wrapped) av cnonce)
              @ CHR 0x0A # aesgcm_encrypt X data_key cnonce plaintext"
  have k4: "key_store w4 = key_store w2"
    by (simp add: w4_def w3_def token_bytes_def now_isoformat_def)
  define E where "E = \<lparr>entry_original_name = basename file_path,
                     entry_original_size = int (length plaintext),
                     entry_vault_path = vp,
                     entry_encrypted_at = now,
                     entry_master_key_version = av,
                     entry_hmac = []\<rparr>"
  have step: "encrypt_file X J fv file_path w =
      then_do (write_file vp raw w4) (\<lambda>w5. then_do (update_manifest E w5) (\<lambda>w6. Inr (E, w6)))"
    using f sc
    by (simp add: encrypt_file_def m r1 g Let_def case_prod_beta vault_header_def wk wv
        AESGCM_def AESGCM_encrypt_def cnonce_def w3_def now_def w4_def vp_def raw_def E_def)
  from assms obtain w5 where wr: "write_file vp raw w4 = Inr w5"
    and um: "update_manifest E w5 = Inr w'" and ee: "entry = E"
    unfolding step then_do_eq_Inr by auto
  have ep: "entry_vault_path entry = vp"
    and en: "entry_original_name entry = basename file_path"
    and ev: "entry_master_key_version entry = av"
    by (simp_all add: ee E_def)
  have "read_file w5 vp = Inr raw"
    using read_file_write_file [OF wr, of vp] by simp
  moreover have "read_file w' vp = read_file w5 vp"
    using update_manifest_Inr [OF um] by (intro read_file_files) simp
  ultimately have rd: "read_file w' vp = Inr raw"
    by simp
  have ks: "key_store w' = key_store w"
    using update_manifest_Inr [OF um] write_file_stores(1) [OF wr] k4 k2 makedirs_stores(1) [OF m]
    by simp
  have "hmac_store w4 = hmac_store w2"
    by (simp add: w4_def w3_def token_bytes_def now_isoformat_def)
  then have hs: "hmac_store w' = hmac_store w"
    using update_manifest_Inr [OF um] write_file_stores(2) [OF wr] generate_data_key_Inr [OF g]
      makedirs_stores(2) [OF m]
    by auto
  have av': "active_version (load_metadata w) = Some av"
    using av makedirs_stores(1) [OF m] by (simp add: load_metadata_def)
  have "files w2 = files w1"
    using generate_data_key_Inr [OF g] by blast
  then have f4: "files w4 = files w1"
    by (simp add: w4_def w3_def token_bytes_def now_isoformat_def)
  have f': "files w' = files w5"
    using update_manifest_Inr [OF um] by simp
  have "isdir w' q = isdir w1 q" for q
    using isdir_write_file [OF wr, of q] isdir_files [OF f', of q] isdir_files [OF f4, of q]
    by simp
  with m have dirs: "\<exists>w1. makedirs (vault_dir fv) w = Inr w1 \<and> (\<forall>q. isdir w' q = isdir w1 q)"
    by blast
  have others: "\<forall>q b. q \<noteq> entry_vault_path entry \<longrightarrow> read_file w q = Inr b
           \<longrightarrow> read_file w' q = Inr b"
  proof (intro allI impI)
    fix q b
    assume q: "q \<noteq> entry_vault_path entry" and rq: "read_file w q = Inr b"
    have "read_file w1 q = Inr b"
      using read_file_makedirs [OF m rq] .
    then have "read_file w4 q = Inr b"
      using read_file_files [OF f4, of q] by simp
    then have "read_file w5 q = Inr b"
      using read_file_write_file [OF wr, of q] q ep by simp
    then show "read_file w' q = Inr b"
      using read_file_files [OF f', of q] by simp
  qed
  have "read_file w file_path = Inr plaintext
    \<and> active_version (load_metadata w) = Some av
    \<and> master_keys (key_manager fv) av = Some mk
    \<and> key_size_ok mk \<and> nonce_size_ok (iv wrapped) \<and> key_size_ok data_key \<and> nonce_size_ok cnonce
    \<and> entry_vault_path entry = join (vault_dir fv) (basename file_path @ encrypted_extension fv)
    \<and> entry_original_name entry = basename file_path
    \<and> entry_master_key_version entry = av
    \<and> read_file w' (entry_vault_path entry) =
         Inr (json_dumps J (vault_header (basename file_path) (int (length plaintext)) now
                (aesgcm_encrypt X mk (iv wrapped) data_key) (iv wrapped) av cnonce)
              @ CHR 0x0A # aesgcm_encrypt X data_key cnonce plaintext)
    \<and> key_store w' = key_store w
    \<and> hmac_store w' = hmac_store w
    \<and> (\<exists>w1. makedirs (vault_dir fv) w = Inr w1 \<and> (\<forall>q. isdir w' q = isdir w1 q))
    \<and> (\<forall>q b. q \<noteq> entry_vault_path entry \<longrightarrow> read_file w q = Inr b
           \<longrightarrow> read_file w' q = Inr b)"
    using r av' mk sk sc ep en ev rd ks hs dirs others unfolding vp_def raw_def by simp
  then show ?thesis
    by (intro exI)
qed

lemma header_fields_vault_header:
  "header_fields (vault_header name n now wk wiv ver nonce) name wk wiv ver nonce"
  by (simp add: header_fields_def vault_header_def flat_dict_def scalar_def subscript_def)

text \<open>
  Claim C1: for every file F readable on disk and a KeyManager whose active master key
  version is unlocked, \<^verbatim>\<open>decrypt_file\<close> applied to the vault file produced by
  \<^verbatim>\<open>encrypt_file(F)\<close> writes a plaintext whose bytes are exactly F's original bytes.

  \<^verbatim>\<open>encrypt_file\<close> returns only when F is readable and the active version is unlocked.
  The libraries are taken at their contract (decryption undoes encryption, the JSON codec
  reads back what it wrote on one line), and the operating system lets \<^verbatim>\<open>decrypt_file\<close>
  open its output: the output directory exists and the output path is no directory.
\<close>

theorem C1_decrypt_file_restores_encrypted_file:
  assumes "codec_ok J" and "aead_correct X"
    and "encrypt_file X J fv file_path w = Inr (entry, w')"
    and "\<not> isdir w' (join (case output_dir of None \<Rightarrow> dirname (entry_vault_path entry) | Some d \<Rightarrow> d)
                         (basename file_path))"
    and "dirname (join (case output_dir of None \<Rightarrow> dirname (entry_vault_path entry) | Some d \<Rightarrow> d)
                         (basename file_path)) = []
         \<or> isdir w' (dirname (join (case output_dir of None \<Rightarrow> dirname (entry_vault_path entry) | Some d \<Rightarrow> d)
                         (basename file_path)))"
  shows "\<exists>out w'' plaintext.
           decrypt_file X J fv (entry_vault_path entry) output_dir w' = Inr (out, w'')
         \<and> read_file w file_path = Inr plaintext
         \<and> read_file w'' out = Inr plaintext"
proof -
  define out where "out = join (case output_dir of None \<Rightarrow> dirname (entry_vault_path entry) | Some d \<Rightarrow> d)
                         (basename file_path)"
  from encrypt_file_Inr [OF assms(3)] obtain plaintext av mk data_key knonce cnonce now
    where r: "read_file w file_path = Inr plaintext"
      and mk: "master_keys (key_manager fv) av = Some mk"
      and sz: "key_size_ok mk" "nonce_size_ok knonce" "key_size_ok data_key" "nonce_size_ok cnonce"
      and rd: "read_file w' (entry_vault_path entry) =
         Inr (json_dumps J (vault_header (basename file_path) (int (length plaintext)) now
                (aesgcm_encrypt X mk knonce data_key) knonce av cnonce)
              @ CHR 0x0A # aesgcm_encrypt X data_key cnonce plaintext)"
    by blast
  have unwrap: "aesgcm_decrypt X mk knonce (aesgcm_encrypt X mk knonce data_key) = Some data_key"
    and content: "aesgcm_decrypt X data_key cnonce (aesgcm_encrypt X data_key cnonce plaintext) = Some plaintext"
    using assms(2) by (simp_all add: aead_correct_def)
  have wr: "write_file out plaintext w' = Inr (w'\<lparr>files := AList.update out (File plaintext) (files w')\<rparr>)"
    using assms(4,5) unfolding out_def [symmetric] by (rule write_file_returns)
  have "decrypt_file X J fv (entry_vault_path entry) output_dir w' =
          Inr (out, w'\<lparr>files := AList.update out (File plaintext) (files w')\<rparr>)"
    using decrypt_file_vault_layout [OF assms(1) rd header_fields_vault_header mk unwrap sz, of output_dir]
    by (simp add: content out_def [symmetric] wr)
  moreover have "read_file (w'\<lparr>files := AList.update out (File plaintext) (files w')\<rparr>) out = Inr plaintext"
    using read_file_write_file [OF wr, of out] by simp
  ultimately show ?thesis
    using r by blast
qed

lemma encrypt_file_returns:
  assumes "read_file w file_path = Inr plaintext"
    and "makedirs (vault_dir fv) w = Inr w1"
    and "active_version (load_metadata w) = Some av" and "av \<noteq> 0"
    and "master_keys (key_manager fv) av = Some mk"
    and "\<not> isdir w1 (join (vault_dir fv) (basename file_path @ encrypted_extension fv))"
    and "dirname (join (vault_dir fv) (basename file_path @ encrypted_extension fv)) = []
         \<or> isdir w1 (dirname (join (vault_dir fv) (basename file_path @ encrypted_extension fv)))"
    and "manifest_store w = NoFile"
    and "key_size_ok mk" and "accepted_sizes (key_manager fv)"
    and "8 \<le> content_iv_length fv" and "content_iv_length fv \<le> 128"
  shows "\<exists>entry w'. encrypt_file X J fv file_path w = Inr (entry, w')"
proof -
  define vp where "vp = join (vault_dir fv) (basename file_path @ encrypted_extension fv)"
  have f: "isfile w file_path"
    using assms(1) by (auto simp: isfile_read_file)
  have r1: "read_file w1 file_path = Inr plaintext"
    using read_file_makedirs [OF assms(2,1)] .
  have av1: "active_version (load_metadata w1) = Some av"
    using assms(3) makedirs_stores(1) [OF assms(2)] by (simp add: load_metadata_def)
  have "nonce_size_ok (fst (token_bytes (iv_length (key_manager fv)) w0))" for w0
    using assms(10) by (simp add: nonce_size_token_bytes accepted_sizes_def)
  then obtain data_key wrapped w2
    where g: "generate_data_key X (key_manager fv) w1 = Inr ((data_key, wrapped), w2)"
    using av1 assms(4,5,9)
    by (simp add: generate_data_key_def Let_def case_prod_beta AESGCM_def AESGCM_encrypt_def)
  have f2: "files w2 = files w1" and m2: "manifest_store w2 = manifest_store w1"
    and "length data_key = data_key_length (key_manager fv)"
    using generate_data_key_Inr [OF g] by blast+
  then have sd: "key_size_ok data_key"
    using assms(10) by (simp add: key_size_ok_def accepted_sizes_def)
  have sn: "nonce_size_ok (fst (token_bytes (content_iv_length fv) w2))"
    using assms(11,12) by (simp add: nonce_size_token_bytes)
  define w4 where "w4 = snd (now_isoformat (snd (token_bytes (content_iv_length fv) w2)))"
  have f4: "files w4 = files w1" and m4: "manifest_store w4 = NoFile"
    using f2 m2 assms(8) makedirs_stores(3) [OF assms(2)]
    by (simp_all add: w4_def token_bytes_def now_isoformat_def)
  have d4: "\<not> isdir w4 vp" "dirname vp = [] \<or> isdir w4 (dirname vp)"
    using assms(6,7) isdir_files [OF f4] unfolding vp_def by simp_all
  have wr: "write_file vp raw w4 = Inr (w4\<lparr>files := AList.update vp (File raw) (files w4)\<rparr>)" for raw
    using d4 by (rule write_file_returns)
  have um: "\<exists>w6. update_manifest e (w4\<lparr>files := fs\<rparr>) = Inr w6" for e fs
    using m4 by (simp add: update_manifest_def load_manifest_def Let_def case_prod_beta)
  show ?thesis
    using f um sd sn
    by (simp add: encrypt_file_def assms(2) r1 g Let_def case_prod_beta AESGCM_def AESGCM_encrypt_def
        w4_def [symmetric] vp_def [symmetric] wr then_do_eq_Inr)
qed

lemma world_hello_facts:
  "read_file world_hello ''hello.txt'' = Inr ''hi''"
  "makedirs ''vault_data'' world_hello =
     Inr (world_hello\<lparr>files := [(''hello.txt'', File ''hi''), (''vault_data'', Dir)]\<rparr>)"
  "active_version (load_metadata world_hello) = Some 1"
  "manifest_store world_hello = NoFile"
proof -
  have a: "ancestors ''vault_data'' = [''vault_data'']"
    by code_simp
  show "read_file world_hello ''hello.txt'' = Inr ''hi''"
    by (simp add: world_hello_def read_file_def)
  show "makedirs ''vault_data'' world_hello =
     Inr (world_hello\<lparr>files := [(''hello.txt'', File ''hi''), (''vault_data'', Dir)]\<rparr>)"
    by (simp add: makedirs_def a world_hello_def)
  show "active_version (load_metadata world_hello) = Some 1"
    using bootstrapped_store(2) by (simp add: world_hello_def load_metadata_def)
  have "manifest_store (snd bootstrapped) = NoFile"
    unfolding bootstrapped_def
    by (simp add: initialize_def Let_def case_prod_beta token_bytes_def token_hex_def
        now_isoformat_def save_metadata_def prune_old_versions_def world0_def)
  then show "manifest_store world_hello = NoFile"
    by (simp add: world_hello_def)
qed

lemma vault0_facts:
  "vault_dir vault0 = ''vault_data''" "encrypted_extension vault0 = ''.vault''"
  "key_manager vault0 = fst bootstrapped"
  "\<exists>mk. master_keys (key_manager vault0) 1 = Some mk \<and> key_size_ok mk"
  "accepted_sizes (key_manager vault0)"
  "content_iv_length vault0 = 12"
  using bootstrapped_key accepted_sizes_km0(2)
  by (simp_all add: vault0_def FileVault_init_def)

lemma hello_paths:
  "basename ''hello.txt'' = ''hello.txt''"
  "join ''vault_data'' ''hello.txt.vault'' = ''vault_data/hello.txt.vault''"
  "dirname ''vault_data/hello.txt.vault'' = ''vault_data''"
  "join ''vault_data'' ''hello.txt'' = ''vault_data/hello.txt''"
  "dirname ''vault_data/hello.txt'' = ''vault_data''"
  by (simp_all add: basename_def join_def dirname_def)

theorem C1_decrypt_file_restores_hello_witness:
  "\<not> isl (encrypt_file ref_externals ref_codec vault0 ''hello.txt'' world_hello)
   \<and> (\<exists>out w''.
        decrypt_file ref_externals ref_codec vault0
          (entry_vault_path (fst (projr (encrypt_file ref_externals ref_codec vault0 ''hello.txt'' world_hello))))
          None (snd (projr (encrypt_file ref_externals ref_codec vault0 ''hello.txt'' world_hello)))
          = Inr (out, w'')
      \<and> read_file w'' out = Inr ''hi'')"
proof -
  let ?w1 = "world_hello\<lparr>files := [(''hello.txt'', File ''hi''), (''vault_data'', Dir)]\<rparr>"
  obtain mk where mk: "master_keys (key_manager vault0) 1 = Some mk" and ks: "key_size_ok mk"
    using vault0_facts(4) by blast
  have d1: "\<not> isdir ?w1 ''vault_data/hello.txt.vault''" "isdir ?w1 ''vault_data''"
    "\<not> isdir ?w1 ''vault_data/hello.txt''"
    by (simp_all add: isdir_def)
  obtain entry w' where e: "encrypt_file ref_externals ref_codec vault0 ''hello.txt'' world_hello = Inr (entry, w')"
    using encrypt_file_returns [of world_hello "''hello.txt''" "''hi''" vault0 ?w1 1 mk
        ref_externals ref_codec] d1 mk ks
    by (auto simp: world_hello_facts vault0_facts(1,2,5,6) hello_paths)
  from encrypt_file_Inr [OF e]
  have vp: "entry_vault_path entry = ''vault_data/hello.txt.vault''"
    and dirs: "\<forall>q. isdir w' q = isdir ?w1 q"
    by (auto simp: vault0_facts(1,2) hello_paths world_hello_facts)
  have o1: "\<not> isdir w' (join (case None of None \<Rightarrow> dirname (entry_vault_path entry) | Some d \<Rightarrow> d)
                         (basename ''hello.txt''))"
    using dirs d1 by (simp add: vp hello_paths)
  have o2: "dirname (join (case None of None \<Rightarrow> dirname (entry_vault_path entry) | Some d \<Rightarrow> d)
                         (basename ''hello.txt'')) = []
         \<or> isdir w' (dirname (join (case None of None \<Rightarrow> dirname (entry_vault_path entry) | Some d \<Rightarrow> d)
                         (basename ''hello.txt'')))"
    using dirs d1 by (simp add: vp hello_paths)
  from C1_decrypt_file_restores_encrypted_file [OF ref_codec_ok ref_aead_correct e o1 o2]
  obtain out w'' plaintext
    where "decrypt_file ref_externals ref_codec vault0 (entry_vault_path entry) None w' = Inr (out, w'')"
      and "read_file world_hello ''hello.txt'' = Inr plaintext"
      and "read_file w'' out = Inr plaintext"
    by blast
  then show ?thesis
    using e by (auto simp: world_hello_facts)
qed

subsection \<open>IntegrityVerifier: signing and verifying\<close>

lemma concat_read_chunks: "0 < n \<Longrightarrow> concat (read_chunks n data) = data"
proof (induction n data rule: read_chunks.induct)
  case (1 n data)
  show ?case
  proof (cases "data = []")
    case True
    then show ?thesis by (subst read_chunks.simps) simp
  next
    case False
    with 1 have "concat (read_chunks n (drop n data)) = drop n data"
      by simp
    with False 1(2) show ?thesis
      by (subst read_chunks.simps) simp
  qed
qed

lemma foldl_append_concat: "foldl (@) acc xss = acc @ concat xss"
  by (induction xss arbitrary: acc) simp_all

lemma compute_hmac_whole_file:
  "compute_hmac X v w p =
     then_do (read_file w p) (\<lambda>data. Inr (hex (hmac_sha256 X (hmac_key v) data)))"
  by (simp add: compute_hmac_def foldl_append_concat concat_read_chunks del: read_chunks.simps)

lemma hex_ascii: "\<forall>c \<in> set (hex b). (of_char c :: nat) < 128"
  using set_hex [of b] by auto

lemma compare_digest_hex:
  "compare_digest (JStr (hex a)) (hex b) = Inr (a = b)"
  using hex_ascii [of a] hex_inject [of a b] by (auto simp: compare_digest_def)

lemma sign_file_Inr:
  assumes "sign_file X v p w = Inr (h, w1)" and "read_file w p = Inr raw"
  shows "\<exists>kvs now n. hmac_store w1 = Content (JDict kvs)
           \<and> map_of kvs (basename p) =
               Some (JDict [(''hmac'', JStr (hex (hmac_sha256 X (hmac_key v) raw))),
                            (''signed_at'', JStr now), (''file_size'', JInt n)])
           \<and> h = hex (hmac_sha256 X (hmac_key v) raw)"
proof -
  have c: "compute_hmac X v w p = Inr (hex (hmac_sha256 X (hmac_key v) raw))"
    by (simp add: compute_hmac_whole_file assms(2))
  from assms(1) obtain store where l: "load_store w = Inr store"
    by (auto simp: sign_file_def c then_do_eq_Inr split: if_splits)
  define now where "now = fst (now_isoformat w)"
  define w0 where "w0 = snd (now_isoformat w)"
  have g: "getsize w0 p = Inr (int (length raw))"
    by (simp add: getsize_def w0_def now_isoformat_def assms(2))
  define e where "e = JDict [(''hmac'', JStr (hex (hmac_sha256 X (hmac_key v) raw))),
                            (''signed_at'', JStr now), (''file_size'', JInt (int (length raw)))]"
  have step: "sign_file X v p w =
      then_do (setitem store (basename p) e) (\<lambda>store'.
        then_do (save_store v store' w0) (\<lambda>w2. Inr (hex (hmac_sha256 X (hmac_key v) raw), w2)))"
    using assms(1)
    by (simp add: sign_file_def c l case_prod_beta now_def [symmetric] w0_def [symmetric] g e_def
        split: if_splits)
  from assms(1) obtain store' where s: "setitem store (basename p) e = Inr store'"
    and sv: "save_store v store' w0 = Inr w1" and h: "h = hex (hmac_sha256 X (hmac_key v) raw)"
    unfolding step then_do_eq_Inr by auto
  from s obtain kvs where st: "store' = JDict (AList.update (basename p) e kvs)"
    by (cases store) (auto simp: setitem_def)
  from sv have "hmac_store w1 = Content store'"
    by (auto simp: save_store_def then_do_eq_Inr)
  then have "hmac_store w1 = Content (JDict (AList.update (basename p) e kvs))
      \<and> map_of (AList.update (basename p) e kvs) (basename p) = Some e"
    by (simp add: st update_conv')
  then show ?thesis
    unfolding e_def using h by blast
qed

lemma verify_file_signed:
  assumes "hmac_store w2 = Content (JDict kvs)"
    and "map_of kvs (basename p) =
               Some (JDict [(''hmac'', JStr (hex tag)), (''signed_at'', JStr now), (''file_size'', JInt n)])"
    and "read_file w2 p = Inr raw'"
  shows "\<exists>r w3. verify_file X J v p w2 = Inr (r, w3)
           \<and> status r = (if hmac_sha256 X (hmac_key v) raw' = tag then ''verified'' else ''tampered'')"
proof -
  have f: "isfile w2 p"
    using assms(3) by (auto simp: isfile_read_file)
  have t: "truthy (JDict [(''hmac'', JStr (hex tag)), (''signed_at'', JStr now), (''file_size'', JInt n)])"
    by simp
  have eq: "(tag = hmac_sha256 X (hmac_key v) raw') = (hmac_sha256 X (hmac_key v) raw' = tag)"
    by auto
  show ?thesis
    using f
    by (simp add: verify_file_def now_isoformat_def Let_def load_store_def assms dict_get_def
        subscript_def compute_hmac_whole_file compare_digest_hex eq)
qed

subsection \<open>The reference primitives notice a changed byte\<close>

lemma congruent_bytes:
  fixes a b x y :: nat
  assumes "a mod 256 = b mod 256" and "a + x = b + y" and "x < 256" and "y < 256"
  shows "x = y"
proof -
  from assms(1) obtain q1 q2 where q: "a + 256 * q1 = b + 256 * q2"
    unfolding nat_mod_eq_iff by blast
  from q assms(2) have e: "256 * q1 + y = 256 * q2 + x"
    by linarith
  show ?thesis
  proof (cases q1 q2 rule: linorder_cases)
    case less
    then have "256 * q1 + 256 \<le> 256 * q2" by simp
    with e assms(3,4) show ?thesis by linarith
  next
    case equal
    with e show ?thesis by simp
  next
    case greater
    then have "256 * q2 + 256 \<le> 256 * q1" by simp
    with e assms(3,4) show ?thesis by linarith
  qed
qed

lemma char_of_differs:
  fixes a b x y :: nat
  assumes "a + x = b + y" and "x < 256" and "y < 256" and "x \<noteq> y"
  shows "(char_of a :: char) \<noteq> char_of b"
proof
  assume "(char_of a :: char) = char_of b"
  then have "a mod 256 = b mod 256"
    by (simp add: char_of_eq_iff take_bit_eq_mod)
  from congruent_bytes [OF this assms(1-3)] assms(4) show False by simp
qed

lemma checksum_update:
  assumes "i < length msg"
  shows "checksum (msg[i := c]) + of_char (msg ! i) = checksum msg + of_char c"
proof -
  have "msg = take i msg @ msg ! i # drop (Suc i) msg"
    using assms by (simp add: id_take_nth_drop)
  moreover have "msg[i := c] = take i msg @ c # drop (Suc i) msg"
    using assms by (simp add: upd_conv_take_nth_drop)
  ultimately have "checksum msg = checksum (take i msg) + of_char (msg ! i) + checksum (drop (Suc i) msg)"
    and "checksum (msg[i := c]) = checksum (take i msg) + of_char c + checksum (drop (Suc i) msg)"
    unfolding checksum_def by (metis map_append sum_list.append list.simps(9) sum_list.Cons add.assoc)+
  then show ?thesis by simp
qed


lemma ref_hmac_update:
  assumes "i < length msg" and "c \<noteq> msg ! i"
  shows "ref_hmac key (msg[i := c]) \<noteq> ref_hmac key msg"
proof -
  have "checksum (key @ msg[i := c]) + length msg + of_char (msg ! i)
      = checksum (key @ msg) + length msg + of_char c"
    using checksum_update [OF assms(1), of c] by (simp add: checksum_def)
  from char_of_differs [OF this] assms(2)
  have "(char_of (checksum (key @ msg[i := c]) + length msg) :: char)
      \<noteq> char_of (checksum (key @ msg) + length msg)"
    by simp
  then show ?thesis
    by (simp add: ref_hmac_def)
qed

lemma ref_tag_update:
  assumes "i < length body" and "c \<noteq> body ! i"
  shows "ref_tag key nonce (body[i := c]) \<noteq> ref_tag key nonce body"
proof -
  have "checksum (key @ nonce @ body[i := c]) + length body + of_char (body ! i)
      = checksum (key @ nonce @ body) + length body + of_char c"
    using checksum_update [OF assms(1), of c] by (simp add: checksum_def)
  from char_of_differs [OF this] assms(2)
  have "(char_of (checksum (key @ nonce @ body[i := c]) + length body) :: char)
      \<noteq> char_of (checksum (key @ nonce @ body) + length body)"
    by simp
  then show ?thesis
    by (simp add: ref_tag_def)
qed

lemma ref_decrypt_update:
  assumes "i < length (ref_encrypt key nonce data)" and "c \<noteq> ref_encrypt key nonce data ! i"
  shows "ref_decrypt key nonce ((ref_encrypt key nonce data)[i := c]) = None"
proof -
  define body where "body = ref_mask (checksum (key @ nonce)) data"
  define tag where "tag = ref_tag key nonce body"
  have ct: "ref_encrypt key nonce data = body @ tag"
    by (simp add: ref_encrypt_def body_def tag_def Let_def)
  have lt: "length tag = 16"
    by (simp add: tag_def ref_tag_def)
  show ?thesis
  proof (cases "i < length body")
    case True
    with assms(2) have "c \<noteq> body ! i"
      by (simp add: ct nth_append)
    from ref_tag_update [OF True this] have "ref_tag key nonce (body[i := c]) \<noteq> tag"
      unfolding tag_def .
    then have "tag \<noteq> ref_tag key nonce (body[i := c])"
      by (rule not_sym)
    with True show ?thesis
      by (simp add: ct list_update_append ref_decrypt_def lt Let_def)
  next
    case False
    with assms have j: "i - length body < length tag" and "c \<noteq> tag ! (i - length body)"
      by (simp_all add: ct nth_append)
    then have "tag[i - length body := c] \<noteq> tag"
      by (metis nth_list_update_eq)
    with False show ?thesis
      by (simp add: ct list_update_append ref_decrypt_def lt Let_def tag_def [symmetric])
  qed
qed

subsection \<open>A changed byte in a signed vault file\<close>

lemma decrypt_file_layout:
  assumes "codec_ok J"
    and "read_file w vault_path = Inr (json_dumps J header @ CHR 0x0A # ct)"
    and "header_fields header name wk wiv ver nonce"
  shows "decrypt_file X J fv vault_path output_dir w =
           then_do (unwrap_data_key X (key_manager fv)
                      \<lparr>wrapped_key = wk, iv = wiv, master_key_version = ver, wdk_created_at = []\<rparr>)
             (\<lambda>data_key.
           then_do (AESGCM data_key) (\<lambda>aesgcm.
           then_do (AESGCM_decrypt X aesgcm nonce ct) (\<lambda>plaintext.
           then_do (write_file (join (case output_dir of None \<Rightarrow> dirname vault_path | Some d \<Rightarrow> d) name)
                      plaintext w)
             (\<lambda>w'. Inr (join (case output_dir of None \<Rightarrow> dirname vault_path | Some d \<Rightarrow> d) name, w')))))"
proof -
  have f: "isfile w vault_path"
    using assms(2) by (auto simp: isfile_read_file)
  have fl: "flat_dict header"
    using assms(3) by (simp add: header_fields_def)
  have civ: "then_do (subscript header ''content_iv'') json_fromhex = Inr nonce"
    using assms(3) by (simp add: header_fields_def json_fromhex_def fromhex_hex)
  show ?thesis
    using f
    by (simp add: decrypt_file_def assms(2) split_vault_file_layout [OF assms(1) fl]
        header_wrapped_key_fields [OF assms(3)] as_version_def
        civ dict_get_fields [OF assms(3)] Let_def)
qed

lemma decrypt_file_rejects:
  assumes "codec_ok J"
    and "read_file w vault_path = Inr (json_dumps J header @ CHR 0x0A # ct)"
    and "header_fields header name wk wiv ver nonce"
    and "\<forall>mk dk. master_keys (key_manager fv) ver = Some mk \<and> aesgcm_decrypt X mk wiv wk = Some dk
           \<longrightarrow> aesgcm_decrypt X dk nonce ct = None"
  shows "isl (decrypt_file X J fv vault_path output_dir w)"
proof (cases "unwrap_data_key X (key_manager fv)
                      \<lparr>wrapped_key = wk, iv = wiv, master_key_version = ver, wdk_created_at = []\<rparr>")
  case (Inl e)
  then show ?thesis
    by (simp add: decrypt_file_layout [OF assms(1-3)])
next
  case (Inr dk)
  then obtain mk where "master_keys (key_manager fv) ver = Some mk"
    and "aesgcm_decrypt X mk wiv wk = Some dk"
    by (auto simp: unwrap_data_key_def AESGCM_decrypt_Inr split: option.splits)
  with assms(4) have "aesgcm_decrypt X dk nonce ct = None"
    by blast
  then show ?thesis
    by (simp add: decrypt_file_layout [OF assms(1-3)] Inr AESGCM_def AESGCM_decrypt_def)
qed

text \<open>
  Claim C3: for every signed vault file and every single-byte modification to it (header or
  ciphertext), \<^verbatim>\<open>verify_file\<close> reports status \<^verbatim>\<open>tampered\<close>; and whenever the modification
  affects the ciphertext region, \<^verbatim>\<open>decrypt_file\<close> on that file cannot succeed: the
  authentication tag check fails.

  The file \<open>p\<close> holds \<open>raw\<close> when \<^verbatim>\<open>sign_file\<close> signs it; afterwards byte \<open>i\<close> of it is
  replaced by \<open>c\<close> and the sidecar store is left alone. The two cryptographic primitives
  are taken at what they promise for the bytes at hand: HMAC-SHA256 gives the changed
  content another digest than the signed content, and AES-GCM rejects the changed
  ciphertext under the data key and nonce of the file. Everything else is the code:
  \<^verbatim>\<open>verify_file\<close> returns a result, whatever the change did to the header line, and its
  status is \<^verbatim>\<open>tampered\<close>; \<^verbatim>\<open>decrypt_file\<close>, for a change behind the header line of a vault
  file that it could decrypt before (the master key version is unlocked, the wrapped
  key unwraps, keys and nonces have sizes that \<^verbatim>\<open>AESGCM\<close> accepts), ends with \<^verbatim>\<open>InvalidTag\<close>
  and writes nothing; and for a change behind the header line of any file with the
  layout of a vault file, whatever the FileVault has unlocked, it ends with an exception.
\<close>

theorem C3_single_byte_modification_is_detected:
  assumes "codec_ok J"
    and "read_file w p = Inr raw"
    and "sign_file X v p w = Inr (h, w1)"
    and "i < length raw"
    and "hmac_store w2 = hmac_store w1"
    and "read_file w2 p = Inr (raw[i := c])"
    and "hmac_sha256 X (hmac_key v) (raw[i := c]) \<noteq> hmac_sha256 X (hmac_key v) raw"
  shows "(\<exists>r w3. verify_file X J v p w2 = Inr (r, w3) \<and> status r = ''tampered'')
       \<and> (\<forall>header ct name wk wiv ver nonce mk dk.
            raw = json_dumps J header @ CHR 0x0A # ct
            \<and> header_fields header name wk wiv ver nonce
            \<and> master_keys (key_manager fv) ver = Some mk
            \<and> key_size_ok mk \<and> nonce_size_ok wiv
            \<and> aesgcm_decrypt X mk wiv wk = Some dk
            \<and> key_size_ok dk \<and> nonce_size_ok nonce
            \<and> length (json_dumps J header) < i
            \<and> aesgcm_decrypt X dk nonce (ct[i - length (json_dumps J header) - 1 := c]) = None
            \<longrightarrow> decrypt_file X J fv p output_dir w2 = Inl InvalidTag)
       \<and> (\<forall>header ct name wk wiv ver nonce.
            raw = json_dumps J header @ CHR 0x0A # ct
            \<and> header_fields header name wk wiv ver nonce
            \<and> length (json_dumps J header) < i
            \<and> (\<forall>mk dk. master_keys (key_manager fv) ver = Some mk
                        \<and> aesgcm_decrypt X mk wiv wk = Some dk
                  \<longrightarrow> aesgcm_decrypt X dk nonce
                        (ct[i - length (json_dumps J header) - 1 := c]) = None)
            \<longrightarrow> isl (decrypt_file X J fv p output_dir w2))"
proof (intro conjI allI impI)
  from sign_file_Inr [OF assms(3,2)] obtain kvs now n
    where "hmac_store w1 = Content (JDict kvs)"
      and e: "map_of kvs (basename p) =
               Some (JDict [(''hmac'', JStr (hex (hmac_sha256 X (hmac_key v) raw))),
                            (''signed_at'', JStr now), (''file_size'', JInt n)])"
    by blast
  then have s: "hmac_store w2 = Content (JDict kvs)"
    using assms(5) by simp
  from verify_file_signed [OF s e assms(6), of X J v] assms(7)
  show "\<exists>r w3. verify_file X J v p w2 = Inr (r, w3) \<and> status r = ''tampered''"
    by simp
next
  fix header ct name wk wiv ver nonce mk dk
  assume a: "raw = json_dumps J header @ CHR 0x0A # ct
            \<and> header_fields header name wk wiv ver nonce
            \<and> master_keys (key_manager fv) ver = Some mk
            \<and> key_size_ok mk \<and> nonce_size_ok wiv
            \<and> aesgcm_decrypt X mk wiv wk = Some dk
            \<and> key_size_ok dk \<and> nonce_size_ok nonce
            \<and> length (json_dumps J header) < i
            \<and> aesgcm_decrypt X dk nonce (ct[i - length (json_dumps J header) - 1 := c]) = None"
  define k where "k = i - length (json_dumps J header) - 1"
  from a have raw: "raw = json_dumps J header @ CHR 0x0A # ct"
    and hf: "header_fields header name wk wiv ver nonce"
    and mk: "master_keys (key_manager fv) ver = Some mk"
    and dk: "aesgcm_decrypt X mk wiv wk = Some dk"
    and sz: "key_size_ok mk" "nonce_size_ok wiv" "key_size_ok dk" "nonce_size_ok nonce"
    and behind: "length (json_dumps J header) < i"
    and rej: "aesgcm_decrypt X dk nonce (ct[k := c]) = None"
    unfolding k_def by blast+
  from behind have "i - length (json_dumps J header) = Suc k"
    unfolding k_def by arith
  with behind have "raw[i := c] = json_dumps J header @ CHR 0x0A # ct[k := c]"
    unfolding raw by (simp add: list_update_append)
  with assms(6) have r: "read_file w2 p = Inr (json_dumps J header @ CHR 0x0A # ct[k := c])"
    by simp
  show "decrypt_file X J fv p output_dir w2 = Inl InvalidTag"
    using decrypt_file_vault_layout [OF assms(1) r hf mk dk sz, of output_dir] rej by simp
next
  fix header ct name wk wiv ver nonce
  assume a: "raw = json_dumps J header @ CHR 0x0A # ct
            \<and> header_fields header name wk wiv ver nonce
            \<and> length (json_dumps J header) < i
            \<and> (\<forall>mk dk. master_keys (key_manager fv) ver = Some mk
                        \<and> aesgcm_decrypt X mk wiv wk = Some dk
                  \<longrightarrow> aesgcm_decrypt X dk nonce
                        (ct[i - length (json_dumps J header) - 1 := c]) = None)"
  define k where "k = i - length (json_dumps J header) - 1"
  from a have raw: "raw = json_dumps J header @ CHR 0x0A # ct"
    and hf: "header_fields header name wk wiv ver nonce"
    and behind: "length (json_dumps J header) < i"
    and rej: "\<forall>mk dk. master_keys (key_manager fv) ver = Some mk
                        \<and> aesgcm_decrypt X mk wiv wk = Some dk
                  \<longrightarrow> aesgcm_decrypt X dk nonce (ct[k := c]) = None"
    unfolding k_def by blast+
  from behind have "i - length (json_dumps J header) = Suc k"
    unfolding k_def by arith
  with behind have "raw[i := c] = json_dumps J header @ CHR 0x0A # ct[k := c]"
    unfolding raw by (simp add: list_update_append)
  with assms(6) have r: "read_file w2 p = Inr (json_dumps J header @ CHR 0x0A # ct[k := c])"
    by simp
  show "isl (decrypt_file X J fv p output_dir w2)"
    using assms(1) r hf rej by (rule decrypt_file_rejects)
qed

lemma sign_file_returns:
  assumes "read_file w p = Inr raw" and "hmac_store w = NoFile"
    and "verifier_dir v \<noteq> []"
    and "make_each (ancestors (verifier_dir v)) (files w) = Inr (files w)"
  shows "\<exists>h w1. sign_file X v p w = Inr (h, w1) \<and> files w1 = files w"
proof -
  have f: "isfile w p"
    using assms(1) by (auto simp: isfile_read_file)
  have m: "makedirs (verifier_dir v) (w\<lparr>ticks := Suc (ticks w)\<rparr>) =
             Inr (w\<lparr>ticks := Suc (ticks w), files := files w\<rparr>)"
    using assms(3,4) by (simp add: makedirs_def)
  show ?thesis
    using f
    by (simp add: sign_file_def compute_hmac_whole_file assms(1,2) load_store_def now_isoformat_def
        getsize_def setitem_def save_store_def m)
qed

lemma flip_last_update:
  "raw \<noteq> [] \<Longrightarrow> flip_last raw = raw[length raw - 1 := char_of ((of_char (raw ! (length raw - 1)) :: nat) + 1)]"
  by (simp add: flip_last_def last_conv_nth)

lemma char_of_succ: "char_of ((of_char c :: nat) + 1) \<noteq> c"
proof -
  have "(char_of ((of_char c :: nat) + 1) :: char) \<noteq> char_of (of_char c :: nat)"
    by (rule char_of_differs [of _ 0 _ 1]) simp_all
  then show ?thesis by simp
qed


lemma ref_externals_detects:
  "i < length msg \<Longrightarrow> c \<noteq> msg ! i
     \<Longrightarrow> hmac_sha256 ref_externals key (msg[i := c]) \<noteq> hmac_sha256 ref_externals key msg"
  "i < length (aesgcm_encrypt ref_externals key nonce data)
     \<Longrightarrow> c \<noteq> aesgcm_encrypt ref_externals key nonce data ! i
     \<Longrightarrow> aesgcm_decrypt ref_externals key nonce
           ((aesgcm_encrypt ref_externals key nonce data)[i := c]) = None"
  "length (aesgcm_encrypt ref_externals key nonce data) = length data + 16"
  by (simp_all add: ref_externals_def ref_hmac_update ref_decrypt_update)
     (simp add: ref_encrypt_def ref_tag_def length_ref_mask Let_def)

lemma hello_stores:
  "hmac_store world_hello = NoFile"
proof -
  have "hmac_store (snd bootstrapped) = NoFile"
    unfolding bootstrapped_def
    by (simp add: initialize_def Let_def case_prod_beta token_bytes_def token_hex_def
        now_isoformat_def save_metadata_def prune_old_versions_def world0_def)
  then show ?thesis
    by (simp add: world_hello_def)
qed

theorem C3_flipped_last_byte_witness:
  "\<not> isl (encrypt_file ref_externals ref_codec vault0 ''hello.txt'' world_hello)
   \<and> \<not> isl (sign_file ref_externals verifier0 ''vault_data/hello.txt.vault'' hello_encrypted)
   \<and> (\<exists>r w3. verify_file ref_externals ref_codec verifier0 ''vault_data/hello.txt.vault''
                 hello_tampered = Inr (r, w3)
          \<and> status r = ''tampered'')
   \<and> decrypt_file ref_externals ref_codec vault0 ''vault_data/hello.txt.vault'' None hello_tampered
       = Inl InvalidTag"
proof -
  let ?vp = "''vault_data/hello.txt.vault''"
  let ?w1 = "world_hello\<lparr>files := [(''hello.txt'', File ''hi''), (''vault_data'', Dir)]\<rparr>"
  obtain mk0 where mk0: "master_keys (key_manager vault0) 1 = Some mk0" and ks0: "key_size_ok mk0"
    using vault0_facts(4) by blast
  have d1: "\<not> isdir ?w1 ?vp" "isdir ?w1 ''vault_data''"
    by (simp_all add: isdir_def)
  obtain entry w' where e: "encrypt_file ref_externals ref_codec vault0 ''hello.txt'' world_hello = Inr (entry, w')"
    using encrypt_file_returns [of world_hello "''hello.txt''" "''hi''" vault0 ?w1 1 mk0
        ref_externals ref_codec] d1 mk0 ks0
    by (auto simp: world_hello_facts vault0_facts(1,2,5,6) hello_paths)
  from encrypt_file_Inr [OF e] obtain plaintext av mk dk knonce cnonce now
    where mk: "master_keys (key_manager vault0) av = Some mk"
      and sz: "key_size_ok mk" "nonce_size_ok knonce" "key_size_ok dk" "nonce_size_ok cnonce"
      and vp: "entry_vault_path entry = join (vault_dir vault0) (basename ''hello.txt'' @ encrypted_extension vault0)"
      and rd: "read_file w' (entry_vault_path entry) =
         Inr (json_dumps ref_codec (vault_header (basename ''hello.txt'') (int (length plaintext)) now
                (aesgcm_encrypt ref_externals mk knonce dk) knonce av cnonce)
              @ CHR 0x0A # aesgcm_encrypt ref_externals dk cnonce plaintext)"
      and hs: "hmac_store w' = hmac_store world_hello"
      and dirs: "\<exists>w1. makedirs (vault_dir vault0) world_hello = Inr w1 \<and> (\<forall>q. isdir w' q = isdir w1 q)"
    by blast
  define header where "header = vault_header (basename ''hello.txt'') (int (length plaintext)) now
                (aesgcm_encrypt ref_externals mk knonce dk) knonce av cnonce"
  define ct where "ct = aesgcm_encrypt ref_externals dk cnonce plaintext"
  define raw where "raw = json_dumps ref_codec header @ CHR 0x0A # ct"
  define i where "i = length raw - 1"
  define c :: char where "c = char_of ((of_char (raw ! i) :: nat) + 1)"
  have vp': "entry_vault_path entry = ?vp"
    by (simp add: vp vault0_facts(1,2) hello_paths)
  have rd': "read_file w' ?vp = Inr raw"
    using rd by (simp add: vp' raw_def header_def ct_def)
  have dw: "\<not> isdir w' ?vp" "isdir w' ''vault_data''"
    using dirs d1 by (auto simp: vault0_facts(1) world_hello_facts)
  have he: "hello_encrypted = w'"
    by (simp add: hello_encrypted_def e)
  have a: "ancestors ''vault_data'' = [''vault_data'']"
    by code_simp
  have me: "make_each (ancestors (verifier_dir verifier0)) (files w') = Inr (files w')"
    using dw(2) by (simp add: verifier0_def a isdir_def)
  from sign_file_returns [OF rd' _ _ me, of ref_externals] obtain h ws
    where sg: "sign_file ref_externals verifier0 ?vp w' = Inr (h, ws)" and fs: "files ws = files w'"
    by (auto simp: hs hello_stores verifier0_def)
  have hsg: "hello_signed = ws"
    by (simp add: hello_signed_def he sg)
  have rs: "read_file ws ?vp = Inr raw"
    using read_file_files [OF fs, of ?vp] rd' by simp
  have ds: "\<not> isdir ws ?vp" "dirname ?vp = [] \<or> isdir ws (dirname ?vp)"
    using dw isdir_files [OF fs] by (simp_all add: hello_paths)
  define wt where "wt = ws\<lparr>files := AList.update ?vp (File (flip_last raw)) (files ws)\<rparr>"
  have wr: "write_file ?vp (flip_last raw) ws = Inr wt"
    unfolding wt_def using ds by (rule write_file_returns)
  have ht: "hello_tampered = wt"
    by (simp add: hello_tampered_def hsg rs wr)
  have lct: "length ct = length plaintext + 16"
    by (simp add: ct_def ref_externals_detects(3))
  have ne: "raw \<noteq> []"
    by (simp add: raw_def)
  have il: "i < length raw"
    using ne by (simp add: i_def)
  have fl: "flip_last raw = raw[i := c]"
    using flip_last_update [OF ne] by (simp add: i_def c_def)
  have cne: "c \<noteq> raw ! i"
    unfolding c_def by (rule char_of_succ)
  have st: "hmac_store wt = hmac_store ws"
    by (simp add: wt_def)
  have rt: "read_file wt ?vp = Inr (raw[i := c])"
    using read_file_write_file [OF wr, of ?vp] by (simp add: fl)
  have hm: "hmac_sha256 ref_externals (hmac_key verifier0) (raw[i := c])
          \<noteq> hmac_sha256 ref_externals (hmac_key verifier0) raw"
    using il cne by (rule ref_externals_detects(1))
  have ix: "i = length (json_dumps ref_codec header) + Suc (length ct - 1)"
    using lct by (simp add: i_def raw_def)
  have k: "i - length (json_dumps ref_codec header) - 1 = length ct - 1"
    using ix by simp
  have ri: "raw ! i = ct ! (length ct - 1)"
    unfolding ix raw_def by (simp add: nth_append)
  have rej: "aesgcm_decrypt ref_externals dk cnonce (ct[length ct - 1 := c]) = None"
    unfolding ct_def
    by (rule ref_externals_detects(2)) (use cne lct in \<open>simp_all add: ri ct_def\<close>)
  have un: "aesgcm_decrypt ref_externals mk knonce (aesgcm_encrypt ref_externals mk knonce dk) = Some dk"
    using ref_aead_correct by (simp add: aead_correct_def)
  have pre: "raw = json_dumps ref_codec header @ CHR 0x0A # ct
            \<and> header_fields header (basename ''hello.txt'') (aesgcm_encrypt ref_externals mk knonce dk)
                 knonce av cnonce
            \<and> master_keys (key_manager vault0) av = Some mk
            \<and> key_size_ok mk \<and> nonce_size_ok knonce
            \<and> aesgcm_decrypt ref_externals mk knonce (aesgcm_encrypt ref_externals mk knonce dk) = Some dk
            \<and> key_size_ok dk \<and> nonce_size_ok cnonce
            \<and> length (json_dumps ref_codec header) < i
            \<and> aesgcm_decrypt ref_externals dk cnonce
                 (ct[i - length (json_dumps ref_codec header) - 1 := c]) = None"
    using mk sz un rej ix unfolding k
    by (simp add: raw_def header_def header_fields_vault_header)
  note C3 = C3_single_byte_modification_is_detected
      [OF ref_codec_ok rd' sg il st rt hm, of vault0 None]
  from C3 have v: "\<exists>r w3. verify_file ref_externals ref_codec verifier0 ?vp wt = Inr (r, w3)
          \<and> status r = ''tampered''"
    by (rule conjunct1)
  from C3 [THEN conjunct2, THEN conjunct1] pre
  have d: "decrypt_file ref_externals ref_codec vault0 ?vp None wt = Inl InvalidTag"
    by blast
  show ?thesis
    using e sg v d by (simp add: he ht)
qed

subsection \<open>FileVault: \<^verbatim>\<open>rotate_keys\<close>\<close>





































end
